theory Spec2Isabelle
  imports Main "HOL-Library.AList" "HOL-Library.Monad_Syntax"
begin

section \<open>Python values\<close>

text \<open>
  The bot (\<^verbatim>\<open>src/bot.py\<close>) keeps its open live-location shares in the global dictionary
  \<^verbatim>\<open>active_shares\<close>, keyed by \<^verbatim>\<open>(chat_id, message_id)\<close>; each value is a dictionary with the
  entries \<^verbatim>\<open>user_id\<close>, \<^verbatim>\<open>username\<close>, \<^verbatim>\<open>start_time\<close> and \<^verbatim>\<open>last_update\<close>.  A value
  read back from the state file is whatever JSON the file holds, so the model keeps
  Python's dynamic typing: a value of the store is a \<open>pyval\<close>, and every operation that
  Python would refuse on it returns the exception as a value (\<open>Inl\<close>).

  Strings are lists of 8-bit characters, read as code points below 256.  Python floats are
  not part of the value universe.  A dictionary is an association list in insertion
  order whose keys are distinct; \<open>AList.update\<close> is item assignment (in place for a key
  that is there, at the end for a new one), \<open>AList.delete\<close> is \<^verbatim>\<open>del\<close>, \<open>map_of\<close> is
  lookup.
\<close>

datatype pyerr =
    ValueError | KeyError | TypeError | AttributeError | OverflowError | OSError

text \<open>
  \<^verbatim>\<open>datetime.datetime\<close>, by its fields.  \<open>tzinfo\<close> is \<open>None\<close> for a naive value and
  otherwise the UTC offset of the attached zone, in microseconds (\<open>Some 0\<close> for
  \<^verbatim>\<open>pytz.utc\<close> and \<^verbatim>\<open>datetime.timezone.utc\<close>).
\<close>

record datetime =
  year :: int
  month :: int
  day :: int
  hour :: int
  minute :: int
  second :: int
  microsecond :: int
  tzinfo :: "int option"

datatype pyval =
    PNone
  | PBool bool
  | PInt int
  | PStr string
  | PDatetime datetime
  | PList "pyval list"
  | PDict "(string \<times> pyval) list"

text \<open>Truth value testing (\<^verbatim>\<open>if not share_info\<close>).\<close>

fun truthy :: "pyval \<Rightarrow> bool" where
  "truthy PNone = False"
| "truthy (PBool b) = b"
| "truthy (PInt n) = (n \<noteq> 0)"
| "truthy (PStr s) = (s \<noteq> [])"
| "truthy (PDatetime d) = True"
| "truthy (PList xs) = (xs \<noteq> [])"
| "truthy (PDict kvs) = (kvs \<noteq> [])"

fun is_substring :: "string \<Rightarrow> string \<Rightarrow> bool" where
  "is_substring k [] = (k = [])"
| "is_substring k (c # cs) = (take (length k) (c # cs) = k \<or> is_substring k cs)"

text \<open>\<^verbatim>\<open>name in v\<close> for a string \<open>name\<close>.\<close>

fun contains :: "pyval \<Rightarrow> string \<Rightarrow> pyerr + bool" where
  "contains (PDict kvs) name = Inr (map_of kvs name \<noteq> None)"
| "contains (PList xs) name = Inr (PStr name \<in> set xs)"
| "contains (PStr s) name = Inr (is_substring name s)"
| "contains v name = Inl TypeError"

text \<open>\<^verbatim>\<open>v[name]\<close> for a string \<open>name\<close>.\<close>

fun subscript :: "pyval \<Rightarrow> string \<Rightarrow> pyerr + pyval" where
  "subscript (PDict kvs) name = (case map_of kvs name of None \<Rightarrow> Inl KeyError | Some x \<Rightarrow> Inr x)"
| "subscript v name = Inl TypeError"

text \<open>\<^verbatim>\<open>v[name] = x\<close> for a string \<open>name\<close>.\<close>

fun set_item :: "pyval \<Rightarrow> string \<Rightarrow> pyval \<Rightarrow> pyerr + pyval" where
  "set_item (PDict kvs) name x = Inr (PDict (AList.update name x kvs))"
| "set_item v name x = Inl TypeError"

text \<open>\<^verbatim>\<open>v.get(name, default)\<close>: only a dictionary has the method.\<close>

fun get_default :: "pyval \<Rightarrow> string \<Rightarrow> pyval \<Rightarrow> pyerr + pyval" where
  "get_default (PDict kvs) name dflt = Inr (case map_of kvs name of None \<Rightarrow> dflt | Some x \<Rightarrow> x)"
| "get_default v name dflt = Inl AttributeError"

text \<open>What \<^verbatim>\<open>json.dump\<close> can write: everything but a \<^verbatim>\<open>datetime\<close>.\<close>

fun json_serializable :: "pyval \<Rightarrow> bool" where
  "json_serializable (PDatetime d) = False"
| "json_serializable (PList xs) = (\<forall>x \<in> set xs. json_serializable x)"
| "json_serializable (PDict kvs) = (\<forall>x \<in> set (map snd kvs). json_serializable x)"
| "json_serializable v = True"

section \<open>Strings and integers\<close>

definition digit_char :: "nat \<Rightarrow> char" where
  "digit_char n = ''0123456789'' ! (n mod 10)"

definition digit_val :: "char \<Rightarrow> nat option" where
  "digit_val c = map_of (zip ''0123456789'' [0..<10]) c"

text \<open>The decimal digits of a natural number, most significant first.\<close>

fun digit_list :: "nat \<Rightarrow> nat list" where
  "digit_list n = (if n < 10 then [n] else digit_list (n div 10) @ [n mod 10])"

declare digit_list.simps [simp del]

definition digits :: "nat \<Rightarrow> string" where
  "digits n = map digit_char (digit_list n)"

text \<open>\<^verbatim>\<open>str(i)\<close>, as the f-string \<^verbatim>\<open>f"{key_tuple[0]}:{key_tuple[1]}"\<close> renders an integer.\<close>

definition str_int :: "int \<Rightarrow> string" where
  "str_int i = (if i < 0 then CHR ''-'' # digits (nat (- i)) else digits (nat i))"

text \<open>\<^verbatim>\<open>"%0wd" % n\<close> and \<^verbatim>\<open>f"{n:0w}"\<close> for \<open>n \<ge> 0\<close>: zeros on the left up to width \<open>w\<close>.\<close>

definition zpad :: "nat \<Rightarrow> int \<Rightarrow> string" where
  "zpad w n = (let ds = digits (nat n) in replicate (w - length ds) CHR ''0'' @ ds)"

text \<open>
  \<^verbatim>\<open>int(s)\<close>: white space on both sides, a sign, then decimal digits that single
  underscores may separate.  The white space of \<^verbatim>\<open>int\<close> among the code points below 256 is
  tab, LF, VT, FF, CR, space, NEL (133) and the no-break space (160).  The interpreter's
  configurable limit on the number of digits is not modelled.
\<close>

definition is_space :: "char \<Rightarrow> bool" where
  "is_space c = (of_char c \<in> {9, 10, 11, 12, 13, 32, 133, 160 :: nat})"

definition strip :: "string \<Rightarrow> string" where
  "strip s = rev (dropWhile is_space (rev (dropWhile is_space s)))"

fun parse_digits :: "nat \<Rightarrow> string \<Rightarrow> nat option" where
  "parse_digits acc [] = Some acc"
| "parse_digits acc (c # cs) =
     (if c = CHR ''_'' then
        (case cs of [] \<Rightarrow> None
         | d # ds \<Rightarrow> if d = CHR ''_'' then None else parse_digits acc cs)
      else (case digit_val c of None \<Rightarrow> None
            | Some v \<Rightarrow> parse_digits (10 * acc + v) cs))"

definition py_int :: "string \<Rightarrow> pyerr + int" where
  "py_int s =
     (let t = strip s;
          neg = (case t of [] \<Rightarrow> False | c # r \<Rightarrow> c = CHR ''-'');
          u = (case t of [] \<Rightarrow> [] | c # r \<Rightarrow> if c = CHR ''-'' \<or> c = CHR ''+'' then r else t)
      in case u of
           [] \<Rightarrow> Inl ValueError
         | c # r \<Rightarrow>
            (case digit_val c of
               None \<Rightarrow> Inl ValueError
             | Some v \<Rightarrow>
                (case parse_digits v r of
                   None \<Rightarrow> Inl ValueError
                 | Some n \<Rightarrow> Inr (if neg then - int n else int n))))"

text \<open>\<^verbatim>\<open>s.split(sep)\<close> for a one-character separator.\<close>

fun split_on :: "char \<Rightarrow> string \<Rightarrow> string list" where
  "split_on sep [] = [[]]"
| "split_on sep (c # cs) =
     (if c = sep then [] # split_on sep cs
      else (case split_on sep cs of [] \<Rightarrow> [[c]] | p # ps \<Rightarrow> (c # p) # ps))"

section \<open>The datetime library\<close>

text \<open>
  The proleptic Gregorian calendar of \<^verbatim>\<open>datetime\<close>, years 1 to 9999.  A \<open>datetime\<close> of
  the program always has its fields in range (\<open>valid_datetime\<close>): the constructor and
  \<^verbatim>\<open>fromisoformat\<close> refuse anything else with \<^verbatim>\<open>ValueError\<close>, and arithmetic that leaves
  the range raises \<^verbatim>\<open>OverflowError\<close>.
\<close>

definition is_leap :: "int \<Rightarrow> bool" where
  "is_leap y = (y mod 4 = 0 \<and> (y mod 100 \<noteq> 0 \<or> y mod 400 = 0))"

definition days_in_month :: "int \<Rightarrow> int \<Rightarrow> int" where
  "days_in_month y m =
     (if m = 2 then (if is_leap y then 29 else 28)
      else if m = 4 \<or> m = 6 \<or> m = 9 \<or> m = 11 then 30 else 31)"

definition days_before_year :: "int \<Rightarrow> int" where
  "days_before_year y = (y - 1) * 365 + (y - 1) div 4 - (y - 1) div 100 + (y - 1) div 400"

definition days_before_month :: "int \<Rightarrow> int \<Rightarrow> int" where
  "days_before_month y m = (\<Sum>k \<leftarrow> [1..m - 1]. days_in_month y k)"

definition ymd_to_ord :: "int \<Rightarrow> int \<Rightarrow> int \<Rightarrow> int" where
  "ymd_to_ord y m d = days_before_year y + days_before_month y m + d"

text \<open>The month and day of the \<open>n\<close>-th day (from 0) of year \<open>y\<close>, searching from month \<open>m\<close>.\<close>

fun month_day :: "nat \<Rightarrow> int \<Rightarrow> int \<Rightarrow> int \<Rightarrow> int \<times> int" where
  "month_day 0 y m n = (m, n + 1)"
| "month_day (Suc fuel) y m n =
     (if n < days_in_month y m then (m, n + 1)
      else month_day fuel y (m + 1) (n - days_in_month y m))"

definition ord_to_ymd :: "int \<Rightarrow> int \<times> int \<times> int" where
  "ord_to_ymd n =
     (let n0 = n - 1;
          n400 = n0 div 146097; r400 = n0 mod 146097;
          n100 = r400 div 36524; r100 = r400 mod 36524;
          n4 = r100 div 1461; r4 = r100 mod 1461;
          n1 = r4 div 365; r1 = r4 mod 365;
          y = n400 * 400 + n100 * 100 + n4 * 4 + n1 + 1
      in if n1 = 4 \<or> n100 = 4 then (y - 1, 12, 31)
         else (case month_day 11 y 1 r1 of (m, d) \<Rightarrow> (y, m, d)))"

definition valid_datetime :: "datetime \<Rightarrow> bool" where
  "valid_datetime d =
     (1 \<le> year d \<and> year d \<le> 9999 \<and> 1 \<le> month d \<and> month d \<le> 12 \<and>
      1 \<le> day d \<and> day d \<le> days_in_month (year d) (month d) \<and>
      0 \<le> hour d \<and> hour d < 24 \<and> 0 \<le> minute d \<and> minute d < 60 \<and>
      0 \<le> second d \<and> second d < 60 \<and> 0 \<le> microsecond d \<and> microsecond d < 1000000 \<and>
      (case tzinfo d of None \<Rightarrow> True | Some off \<Rightarrow> - 86400000000 < off \<and> off < 86400000000))"

text \<open>The wall-clock reading in microseconds since 0001-01-01T00:00, and the instant.\<close>

definition wall_micros :: "datetime \<Rightarrow> int" where
  "wall_micros d =
     ((((ymd_to_ord (year d) (month d) (day d) - 1) * 24 + hour d) * 60 + minute d) * 60
        + second d) * 1000000 + microsecond d"

definition utc_micros :: "datetime \<Rightarrow> int" where
  "utc_micros d = wall_micros d - (case tzinfo d of None \<Rightarrow> 0 | Some off \<Rightarrow> off)"

text \<open>
  \<^verbatim>\<open>a - b\<close>, a \<^verbatim>\<open>timedelta\<close> in microseconds; Python refuses to subtract a naive from
  an aware value.
\<close>

definition dt_sub :: "datetime \<Rightarrow> datetime \<Rightarrow> pyerr + int" where
  "dt_sub a b =
     (case (tzinfo a, tzinfo b) of
        (None, None) \<Rightarrow> Inr (wall_micros a - wall_micros b)
      | (Some x, Some y) \<Rightarrow> Inr (utc_micros a - utc_micros b)
      | _ \<Rightarrow> Inl TypeError)"

text \<open>
  \<^verbatim>\<open>d + timedelta(microseconds=delta)\<close>, as CPython normalises the fields: carries run
  from the microseconds up to the day; a day that is one off its month moves to the
  neighbouring month, any other goes through the ordinal; a year outside 1..9999 is
  \<^verbatim>\<open>OverflowError\<close>.
\<close>

definition check_year :: "int \<times> int \<times> int \<Rightarrow> pyerr + (int \<times> int \<times> int)" where
  "check_year ymd = (case ymd of (y, m, d) \<Rightarrow>
     if 1 \<le> y \<and> y \<le> 9999 then Inr (y, m, d) else Inl OverflowError)"

definition normalize_y_m_d :: "int \<Rightarrow> int \<Rightarrow> int \<Rightarrow> pyerr + (int \<times> int \<times> int)" where
  "normalize_y_m_d y m d =
     (let dim = days_in_month y m in
      if 1 \<le> d \<and> d \<le> dim then check_year (y, m, d)
      else if d = 0 then
        (if m - 1 > 0 then check_year (y, m - 1, days_in_month y (m - 1))
         else check_year (y - 1, 12, 31))
      else if d = dim + 1 then
        (if m + 1 > 12 then check_year (y + 1, 1, 1) else check_year (y, m + 1, 1))
      else (let ordinal = ymd_to_ord y m 1 + d - 1 in
            if ordinal < 1 \<or> ordinal > 3652059 then Inl OverflowError
            else Inr (ord_to_ymd ordinal)))"

definition dt_shift :: "datetime \<Rightarrow> int \<Rightarrow> pyerr + datetime" where
  "dt_shift d delta =
     (let us = microsecond d + delta;
          s = second d + us div 1000000;
          mi = minute d + s div 60;
          h = hour d + mi div 60;
          dd = day d + h div 24
      in case normalize_y_m_d (year d) (month d) dd of
           Inl e \<Rightarrow> Inl e
         | Inr (y, m, d') \<Rightarrow>
             Inr (d\<lparr>year := y, month := m, day := d', hour := h mod 24, minute := mi mod 60,
                    second := s mod 60, microsecond := us mod 1000000\<rparr>))"

text \<open>
  \<^verbatim>\<open>d.astimezone(tz)\<close>.  \<open>tz u\<close> is the UTC offset of the target zone at the UTC reading
  \<open>u\<close>; \<open>local d\<close> is the offset of the system's zone for a naive \<open>d\<close>, which Python takes a
  naive value to be in (both in microseconds; the system's zone is outside the program).
  The value is first moved to UTC, then to the target zone.
\<close>

definition astimezone ::
  "(datetime \<Rightarrow> pyerr + int) \<Rightarrow> (datetime \<Rightarrow> int) \<Rightarrow> datetime \<Rightarrow> pyerr + datetime" where
  "astimezone local tz d =
     (case (case tzinfo d of Some off \<Rightarrow> Inr off | None \<Rightarrow> local d) of
        Inl e \<Rightarrow> Inl e
      | Inr off \<Rightarrow>
         (case dt_shift d (- off) of
            Inl e \<Rightarrow> Inl e
          | Inr u \<Rightarrow>
             (case dt_shift u (tz u) of
                Inl e \<Rightarrow> Inl e
              | Inr r \<Rightarrow> Inr (r\<lparr>tzinfo := Some (tz u)\<rparr>))))"

text \<open>\<^verbatim>\<open>UTC_TZ = pytz.utc\<close>, and \<^verbatim>\<open>UTC_TZ.localize(d)\<close> for a naive \<open>d\<close>.\<close>

definition UTC_TZ :: "datetime \<Rightarrow> int" where
  "UTC_TZ u = 0"

definition localize_utc :: "datetime \<Rightarrow> datetime" where
  "localize_utc d = d\<lparr>tzinfo := Some 0\<rparr>"

subsection \<open>isoformat and fromisoformat\<close>

definition offset_text :: "bool \<Rightarrow> int \<Rightarrow> int \<Rightarrow> int \<Rightarrow> int \<Rightarrow> string" where
  "offset_text neg hh mm ss us =
     (if neg then CHR ''-'' else CHR ''+'') # zpad 2 hh @ CHR '':'' # zpad 2 mm @
     (if ss \<noteq> 0 \<or> us \<noteq> 0
      then CHR '':'' # zpad 2 ss @ (if us \<noteq> 0 then CHR ''.'' # zpad 6 us else [])
      else [])"

definition format_offset :: "int option \<Rightarrow> string" where
  "format_offset off =
     (case off of
        None \<Rightarrow> []
      | Some x \<Rightarrow>
         (let a = \<bar>x\<bar>;
              hh = a div 3600000000; r = a mod 3600000000;
              mm = r div 60000000; r' = r mod 60000000;
              ss = r' div 1000000; us = r' mod 1000000
          in offset_text (x < 0) hh mm ss us))"

definition iso_date :: "datetime \<Rightarrow> string" where
  "iso_date d = zpad 4 (year d) @ CHR ''-'' # zpad 2 (month d) @ CHR ''-'' # zpad 2 (day d)"

definition iso_time :: "datetime \<Rightarrow> string" where
  "iso_time d =
     zpad 2 (hour d) @ CHR '':'' # zpad 2 (minute d) @ CHR '':'' # zpad 2 (second d) @
     (if microsecond d \<noteq> 0 then CHR ''.'' # zpad 6 (microsecond d) else [])"

definition isoformat :: "datetime \<Rightarrow> string" where
  "isoformat d = iso_date d @ CHR ''T'' # iso_time d @ format_offset (tzinfo d)"

text \<open>
  \<^verbatim>\<open>datetime.fromisoformat\<close>, for the format that \<^verbatim>\<open>isoformat\<close> writes:
  \<^verbatim>\<open>YYYY-MM-DD[*HH[:MM[:SS[.fff[fff]]]][+HH:MM[:SS[.ffffff]]]]\<close>, where \<^verbatim>\<open>*\<close> is any one
  character.  Every version of the library reads these strings, and as modelled; later
  versions read further ISO 8601 forms as well, which this parser refuses.
\<close>

definition num1 :: "string \<Rightarrow> (int \<times> string) option" where
  "num1 s = (case s of [] \<Rightarrow> None
             | a # r \<Rightarrow> (case digit_val a of None \<Rightarrow> None | Some x \<Rightarrow> Some (int x, r)))"

definition num2 :: "string \<Rightarrow> (int \<times> string) option" where
  "num2 s = do { (a, r) \<leftarrow> num1 s; (b, r') \<leftarrow> num1 r; Some (10 * a + b, r') }"

definition num3 :: "string \<Rightarrow> (int \<times> string) option" where
  "num3 s = do { (a, r) \<leftarrow> num1 s; (b, r') \<leftarrow> num2 r; Some (100 * a + b, r') }"

definition num4 :: "string \<Rightarrow> (int \<times> string) option" where
  "num4 s = do { (a, r) \<leftarrow> num2 s; (b, r') \<leftarrow> num2 r; Some (100 * a + b, r') }"

definition num6 :: "string \<Rightarrow> (int \<times> string) option" where
  "num6 s = do { (a, r) \<leftarrow> num3 s; (b, r') \<leftarrow> num3 r; Some (1000 * a + b, r') }"

definition lit :: "char \<Rightarrow> string \<Rightarrow> string option" where
  "lit c s = (case s of [] \<Rightarrow> None | x # r \<Rightarrow> if x = c then Some r else None)"

text \<open>\<^verbatim>\<open>HH[:MM[:SS[.fff[fff]]]]\<close>, the whole string.\<close>

definition parse_hh_mm_ss_ff :: "string \<Rightarrow> (int \<times> int \<times> int \<times> int) option" where
  "parse_hh_mm_ss_ff s =
     do { (h, r1) \<leftarrow> num2 s;
          if r1 = [] then Some (h, 0, 0, 0) else
          do { r2 \<leftarrow> lit CHR '':'' r1; (m, r3) \<leftarrow> num2 r2;
               if r3 = [] then Some (h, m, 0, 0) else
               do { r4 \<leftarrow> lit CHR '':'' r3; (sec, r5) \<leftarrow> num2 r4;
                    if r5 = [] then Some (h, m, sec, 0) else
                    do { r6 \<leftarrow> lit CHR ''.'' r5;
                         if length r6 = 3 then do { (f, r7) \<leftarrow> num3 r6; Some (h, m, sec, 1000 * f) }
                         else if length r6 = 6 then do { (f, r7) \<leftarrow> num6 r6; Some (h, m, sec, f) }
                         else None } } } }"

definition not_sign :: "char \<Rightarrow> bool" where
  "not_sign c = (c \<noteq> CHR ''+'' \<and> c \<noteq> CHR ''-'')"

text \<open>The offset \<^verbatim>\<open>+HH:MM\<close>, \<^verbatim>\<open>+HH:MM:SS\<close> or \<^verbatim>\<open>+HH:MM:SS.ffffff\<close>, or none.\<close>

definition parse_offset :: "string \<Rightarrow> int option option" where
  "parse_offset z =
     (case z of
        [] \<Rightarrow> Some None
      | c # body \<Rightarrow>
          if length body = 5 \<or> length body = 8 \<or> length body = 15 then
            do { (h, m, sec, f) \<leftarrow> parse_hh_mm_ss_ff body;
                 Some (Some ((if c = CHR ''-'' then - 1 else 1) *
                             (((h * 60 + m) * 60 + sec) * 1000000 + f))) }
          else None)"

definition parse_isoformat :: "string \<Rightarrow> datetime option" where
  "parse_isoformat s =
     do { (y, r1) \<leftarrow> num4 s; r2 \<leftarrow> lit CHR ''-'' r1;
          (m, r3) \<leftarrow> num2 r2; r4 \<leftarrow> lit CHR ''-'' r3;
          (d, r5) \<leftarrow> num2 r4;
          if r5 = [] then
            Some \<lparr>year = y, month = m, day = d, hour = 0, minute = 0, second = 0,
                  microsecond = 0, tzinfo = None\<rparr>
          else
            do { (h, mi, sec, f) \<leftarrow> parse_hh_mm_ss_ff (takeWhile not_sign (tl r5));
                 tz \<leftarrow> parse_offset (dropWhile not_sign (tl r5));
                 Some \<lparr>year = y, month = m, day = d, hour = h, minute = mi, second = sec,
                       microsecond = f, tzinfo = tz\<rparr> } }"

definition fromisoformat :: "string \<Rightarrow> pyerr + datetime" where
  "fromisoformat s =
     (case parse_isoformat s of
        None \<Rightarrow> Inl ValueError
      | Some d \<Rightarrow> if valid_datetime d then Inr d else Inl ValueError)"

text \<open>
  \<^verbatim>\<open>timedelta(hours=h)\<close> and \<^verbatim>\<open>timedelta(seconds=n)\<close> in microseconds; a \<^verbatim>\<open>timedelta\<close>
  holds at most 999999999 days either way.
\<close>

definition timedelta_hours :: "int \<Rightarrow> pyerr + int" where
  "timedelta_hours h =
     (if - 999999999 \<le> h div 24 \<and> h div 24 \<le> 999999999 then Inr (h * 3600000000)
      else Inl OverflowError)"

definition timedelta_seconds :: "int \<Rightarrow> pyerr + int" where
  "timedelta_seconds n =
     (if - 999999999 \<le> n div 86400 \<and> n div 86400 \<le> 999999999 then Inr (n * 1000000)
      else Inl OverflowError)"

text \<open>
  \<^verbatim>\<open>int(td.total_seconds())\<close>: the whole seconds of a \<^verbatim>\<open>timedelta\<close>, rounded towards zero.
  (\<^verbatim>\<open>total_seconds\<close> is a float; the division is exact for every span below 2^53
  microseconds, about 285 years.)
\<close>

definition total_seconds_int :: "int \<Rightarrow> int" where
  "total_seconds_int us = (if us < 0 then - ((- us) div 1000000) else us div 1000000)"

section \<open>The process and its surroundings\<close>

type_synonym share_key = "int \<times> int"

type_synonym store = "(share_key \<times> pyval) list"

text \<open>
  A file holds either text that \<^verbatim>\<open>json.load\<close> reads, given by the value it reads, or
  text that it refuses (an empty or a half-written file among them).
\<close>

datatype file_content = Json pyval | Garbage

type_synonym filesystem = "string \<Rightarrow> file_content option"

text \<open>
  The log keeps the records of level INFO and above: the level, the call that wrote it,
  and what it reports.
\<close>

datatype level = INFO | WARNING | ERROR

datatype logarg = LKey share_key | LStr string | LErr pyerr | LNum int

type_synonym logrec = "level \<times> string \<times> logarg list"

text \<open>
  The row that \<^verbatim>\<open>handle_edited_location\<close> hands to the sheet, by the names of its columns.
  The four timestamps are kept as values; their rendering by \<^verbatim>\<open>strftime\<close> is not
  modelled.
\<close>

record completed =
  COL_USERID :: pyval
  COL_USERNAME :: pyval
  COL_START_BR :: datetime
  COL_END_BR :: datetime
  COL_DURATION :: string
  COL_START_UTC :: datetime
  COL_END_UTC :: datetime
  COL_DURATION_SEC :: int

text \<open>
  The globals of the module and what the process has done to the world outside it: the
  files, the rows of the sheet, the time slept and the log.  The counters number the
  calls that leave the process, so that \<open>env\<close> can say how each one ends.
\<close>

record world =
  active_shares :: store
  gs_connected :: bool
  files :: filesystem
  sheet :: "completed list"
  slept :: int
  logs :: "logrec list"
  n_probe :: nat
  n_setup :: nat
  n_append :: nat
  n_save :: nat

datatype setup_outcome = SetupOk | MissingHeaders | SetupError

datatype append_outcome = Appended | APIError int | OtherException

record io_faults =
  open_fails :: bool
  write_fails :: bool
  replace_fails :: bool
  remove_fails :: bool

text \<open>
  What the program does not decide: how the \<open>k\<close>-th probe of the worksheet, the \<open>k\<close>-th
  connection to the sheet, the \<open>k\<close>-th \<^verbatim>\<open>append_row\<close> and the file operations of the
  \<open>k\<close>-th save end; the zone of the system and the zone \<^verbatim>\<open>America/Sao_Paulo\<close> (\<^verbatim>\<open>BR_TZ\<close>),
  by their UTC offsets in microseconds; and the configured \<^verbatim>\<open>MAX_INACTIVE_HOURS\<close>.
\<close>

record env =
  probe_ok :: "nat \<Rightarrow> bool"
  setup_result :: "nat \<Rightarrow> setup_outcome"
  append_result :: "nat \<Rightarrow> append_outcome"
  io_result :: "nat \<Rightarrow> io_faults"
  local_offset :: "datetime \<Rightarrow> pyerr + int"
  BR_TZ :: "datetime \<Rightarrow> int"
  MAX_INACTIVE_HOURS :: int

definition STATE_FILENAME :: string where
  "STATE_FILENAME = ''active_shares_state.json''"

definition log :: "level \<Rightarrow> string \<Rightarrow> logarg list \<Rightarrow> world \<Rightarrow> world" where
  "log l msg args w = w\<lparr>logs := logs w @ [(l, msg, args)]\<rparr>"

text \<open>\<^verbatim>\<open>time.sleep(delay)\<close>: a negative delay is refused with \<^verbatim>\<open>ValueError\<close>.\<close>

definition sleep :: "int \<Rightarrow> world \<Rightarrow> pyerr + world" where
  "sleep delay w = (if delay < 0 then Inl ValueError else Inr (w\<lparr>slept := slept w + delay\<rparr>))"

section \<open>save_state and load_state\<close>

text \<open>The key \<^verbatim>\<open>f"{key_tuple[0]}:{key_tuple[1]}"\<close>.\<close>

definition key_to_str :: "share_key \<Rightarrow> string" where
  "key_to_str k = str_int (fst k) @ CHR '':'' # str_int (snd k)"

text \<open>
  \<^verbatim>\<open>if name in value_dict and isinstance(value_dict[name], datetime):
    value_dict[name] = value_dict[name].isoformat()\<close>
\<close>

definition iso_field :: "string \<Rightarrow> pyval \<Rightarrow> pyerr + pyval" where
  "iso_field name v =
     (case contains v name of
        Inl e \<Rightarrow> Inl e
      | Inr False \<Rightarrow> Inr v
      | Inr True \<Rightarrow>
         (case subscript v name of
            Inl e \<Rightarrow> Inl e
          | Inr (PDatetime d) \<Rightarrow> set_item v name (PStr (isoformat d))
          | Inr x \<Rightarrow> Inr v))"

definition entry_to_json :: "pyval \<Rightarrow> pyerr + pyval" where
  "entry_to_json v =
     (case iso_field ''start_time'' v of
        Inl e \<Rightarrow> Inl e
      | Inr v1 \<Rightarrow> iso_field ''last_update'' v1)"

text \<open>The first loop of \<^verbatim>\<open>save_state\<close>, building \<^verbatim>\<open>data_to_save\<close> from the copy.\<close>

fun prepare :: "store \<Rightarrow> (string \<times> pyval) list \<Rightarrow> pyerr + (string \<times> pyval) list" where
  "prepare [] data_to_save = Inr data_to_save"
| "prepare ((key_tuple, value_dict) # rest) data_to_save =
     (case entry_to_json value_dict of
        Inl e \<Rightarrow> Inl e
      | Inr v \<Rightarrow> prepare rest (AList.update (key_to_str key_tuple) v data_to_save))"

text \<open>
  The \<^verbatim>\<open>finally\<close> clause: the temporary file is removed if it is still there.  The file
  system is carried as the list of its states so far, the latest last.
\<close>

definition remove_temp ::
  "io_faults \<Rightarrow> string \<Rightarrow> filesystem list \<times> logrec list \<Rightarrow> filesystem list \<times> logrec list" where
  "remove_temp io temp_filename r =
     (case r of (states, lg) \<Rightarrow>
        if last states temp_filename = None then (states, lg)
        else if remove_fails io
          then (states, lg @ [(ERROR, ''save_state: temporary file not removed'', [])])
          else (states @ [(last states)(temp_filename := None)], lg))"

text \<open>
  The file operations of \<^verbatim>\<open>save_state\<close>: every state the file system goes through, the
  one before the call first, and the records logged.  Opening the temporary file for
  writing empties it; \<^verbatim>\<open>json.dump\<close> fills it, or stops half-way at a value it cannot write;
  \<^verbatim>\<open>os.replace\<close> moves it over the state file in one step.
\<close>

definition write_state ::
  "io_faults \<Rightarrow> store \<Rightarrow> string \<Rightarrow> filesystem \<Rightarrow> filesystem list \<times> logrec list" where
  "write_state io data filename fs =
     (let temp_filename = filename @ ''.tmp'' in
      case prepare data [] of
        Inl e \<Rightarrow> ([fs], [(ERROR, ''save_state: preparing the data failed'', [LErr e])])
      | Inr data_to_save \<Rightarrow>
         if open_fails io then
           remove_temp io temp_filename ([fs], [(ERROR, ''save_state: I/O error'', [])])
         else
          (let fs1 = fs(temp_filename \<mapsto> Garbage) in
           if \<not> json_serializable (PDict data_to_save) then
             remove_temp io temp_filename
               ([fs, fs1], [(ERROR, ''save_state: unexpected error'', [LErr TypeError])])
           else if write_fails io then
             remove_temp io temp_filename ([fs, fs1], [(ERROR, ''save_state: I/O error'', [])])
           else
            (let fs2 = fs1(temp_filename \<mapsto> Json (PDict data_to_save)) in
             if replace_fails io then
               remove_temp io temp_filename
                 ([fs, fs1, fs2], [(ERROR, ''save_state: I/O error'', [])])
             else
              (let fs3 = fs2(filename \<mapsto> Json (PDict data_to_save), temp_filename := None) in
               remove_temp io temp_filename
                 ([fs, fs1, fs2, fs3],
                  [(INFO, ''save_state: state saved'', [LNum (int (length data_to_save))])])))))"

definition save_state :: "env \<Rightarrow> store \<Rightarrow> string \<Rightarrow> world \<Rightarrow> world" where
  "save_state E data filename w =
     (case write_state (io_result E (n_save w)) data filename (files w) of
        (states, lg) \<Rightarrow>
          w\<lparr>files := last states, logs := logs w @ lg, n_save := Suc (n_save w)\<rparr>)"

text \<open>
  \<^verbatim>\<open>if name in value_dict and isinstance(value_dict[name], str):
    value_dict[name] = datetime.fromisoformat(value_dict[name]).astimezone(UTC_TZ)\<close>
\<close>

definition restore_field :: "env \<Rightarrow> string \<Rightarrow> pyval \<Rightarrow> pyerr + pyval" where
  "restore_field E name v =
     (case contains v name of
        Inl e \<Rightarrow> Inl e
      | Inr False \<Rightarrow> Inr v
      | Inr True \<Rightarrow>
         (case subscript v name of
            Inl e \<Rightarrow> Inl e
          | Inr (PStr s) \<Rightarrow>
             (case fromisoformat s of
                Inl e \<Rightarrow> Inl e
              | Inr dt_obj \<Rightarrow>
                 (case astimezone (local_offset E) UTC_TZ dt_obj of
                    Inl e \<Rightarrow> Inl e
                  | Inr d \<Rightarrow> set_item v name (PDatetime d)))
          | Inr x \<Rightarrow> Inr v))"

text \<open>The body of the \<^verbatim>\<open>try\<close> inside the loop of \<^verbatim>\<open>load_state\<close>, for one item of the file.\<close>

definition restore_entry :: "env \<Rightarrow> string \<Rightarrow> pyval \<Rightarrow> pyerr + (share_key \<times> pyval)" where
  "restore_entry E str_key value_dict =
     (case split_on CHR '':'' str_key of
        [chat_id_str, message_id_str] \<Rightarrow>
          (case py_int chat_id_str of
             Inl e \<Rightarrow> Inl e
           | Inr c \<Rightarrow>
              (case py_int message_id_str of
                 Inl e \<Rightarrow> Inl e
               | Inr m \<Rightarrow>
                  (case restore_field E ''start_time'' value_dict of
                     Inl e \<Rightarrow> Inl e
                   | Inr v1 \<Rightarrow>
                      (case restore_field E ''last_update'' v1 of
                         Inl e \<Rightarrow> Inl e
                       | Inr v2 \<Rightarrow> Inr ((c, m), v2)))))
      | _ \<Rightarrow> Inl ValueError)"

text \<open>
  The loop of \<^verbatim>\<open>load_state\<close>.  \<^verbatim>\<open>except (ValueError, KeyError, TypeError)\<close> skips the item
  with a warning; any other exception leaves the loop.
\<close>

fun restore_all ::
  "env \<Rightarrow> (string \<times> pyval) list \<Rightarrow> store \<Rightarrow> logrec list \<Rightarrow> (pyerr + store) \<times> logrec list" where
  "restore_all E [] state_data lg = (Inr state_data, lg)"
| "restore_all E ((str_key, value_dict) # rest) state_data lg =
     (case restore_entry E str_key value_dict of
        Inr (key_tuple, v) \<Rightarrow> restore_all E rest (AList.update key_tuple v state_data) lg
      | Inl e \<Rightarrow>
          if e = ValueError \<or> e = KeyError \<or> e = TypeError
          then restore_all E rest state_data
                 (lg @ [(WARNING, ''load_state: entry skipped'', [LStr str_key, LErr e])])
          else (Inl e, lg))"

definition load_state :: "env \<Rightarrow> string \<Rightarrow> filesystem \<Rightarrow> store \<times> logrec list" where
  "load_state E filename fs =
     (case fs filename of
        None \<Rightarrow> ([], [(INFO, ''load_state: no state file'', [])])
      | Some Garbage \<Rightarrow> ([], [(ERROR, ''load_state: JSON decode error'', [])])
      | Some (Json (PDict loaded_data)) \<Rightarrow>
         (case restore_all E loaded_data [] [] of
            (Inr state_data, lg) \<Rightarrow>
              (state_data,
               lg @ [(INFO, ''load_state: state loaded'', [LNum (int (length state_data))])])
          | (Inl e, lg) \<Rightarrow> ([], lg @ [(ERROR, ''load_state: unexpected error'', [LErr e])]))
      | Some (Json x) \<Rightarrow> ([], [(ERROR, ''load_state: unexpected error'', [LErr AttributeError])]))"

section \<open>The sheet\<close>

text \<open>
  \<^verbatim>\<open>setup_google_sheets\<close>: on success the globals \<^verbatim>\<open>gs_client\<close> and \<^verbatim>\<open>gs_worksheet\<close> are
  set; a sheet without the required headers returns \<^verbatim>\<open>False\<close> and leaves them as they are;
  every exception is caught and clears them.
\<close>

definition setup_google_sheets :: "env \<Rightarrow> world \<Rightarrow> bool \<times> world" where
  "setup_google_sheets E w =
     (let w1 = w\<lparr>n_setup := Suc (n_setup w)\<rparr> in
      case setup_result E (n_setup w) of
        SetupOk \<Rightarrow> (True, log INFO ''setup_google_sheets: connected'' [] (w1\<lparr>gs_connected := True\<rparr>))
      | MissingHeaders \<Rightarrow> (False, log ERROR ''setup_google_sheets: header missing'' [] w1)
      | SetupError \<Rightarrow>
          (False, log ERROR ''setup_google_sheets: failed'' [] (w1\<lparr>gs_connected := False\<rparr>)))"

text \<open>
  The loop \<^verbatim>\<open>for attempt in range(max_retries + 1)\<close> of \<^verbatim>\<open>get_worksheet_with_retry\<close>.  The
  functions of this section return \<open>Inr\<close> with their result and the state they leave, or
  \<open>Inl\<close> with the exception that leaves them and the state at that point; the only
  exception is the \<^verbatim>\<open>ValueError\<close> of \<^verbatim>\<open>time.sleep\<close>, which nothing catches.
\<close>

fun setup_attempts ::
  "env \<Rightarrow> int \<Rightarrow> int \<Rightarrow> int list \<Rightarrow> world \<Rightarrow> pyerr \<times> world + bool \<times> world" where
  "setup_attempts E max_retries delay [] w =
     Inr (False, log ERROR ''get_worksheet_with_retry: no worksheet'' [] w)"
| "setup_attempts E max_retries delay (attempt # rest) w =
     (case setup_google_sheets E w of
        (True, w1) \<Rightarrow> Inr (True, w1)
      | (False, w1) \<Rightarrow>
          if attempt < max_retries then
            (let w2 = log WARNING ''get_worksheet_with_retry: retrying'' [LNum (attempt + 1)] w1 in
             case sleep delay w2 of
               Inl e \<Rightarrow> Inl (e, w2)
             | Inr w3 \<Rightarrow> setup_attempts E max_retries delay rest w3)
          else setup_attempts E max_retries delay rest w1)"

text \<open>
  \<^verbatim>\<open>get_worksheet_with_retry\<close>; the result is whether a worksheet is returned (\<^verbatim>\<open>None\<close>
  otherwise).
\<close>

definition get_worksheet_with_retry ::
  "env \<Rightarrow> int \<Rightarrow> int \<Rightarrow> world \<Rightarrow> pyerr \<times> world + bool \<times> world" where
  "get_worksheet_with_retry E max_retries delay w =
     (if gs_connected w then
        (let w1 = w\<lparr>n_probe := Suc (n_probe w)\<rparr> in
         if probe_ok E (n_probe w) then Inr (True, w1)
         else setup_attempts E max_retries delay [0..max_retries]
                (log INFO ''get_worksheet_with_retry: connecting'' []
                  (log WARNING ''get_worksheet_with_retry: worksheet invalid'' []
                    (w1\<lparr>gs_connected := False\<rparr>))))
      else setup_attempts E max_retries delay [0..max_retries]
             (log INFO ''get_worksheet_with_retry: connecting'' [] w))"

text \<open>The loop \<^verbatim>\<open>for attempt in range(max_retries + 1)\<close> of \<^verbatim>\<open>append_row_with_retry\<close>.\<close>

fun append_attempts ::
  "env \<Rightarrow> completed \<Rightarrow> int \<Rightarrow> int \<Rightarrow> int list \<Rightarrow> world \<Rightarrow> pyerr \<times> world + bool \<times> world" where
  "append_attempts E data max_retries delay [] w = Inr (False, w)"
| "append_attempts E data max_retries delay (attempt # rest) w =
     (let w1 = w\<lparr>n_append := Suc (n_append w)\<rparr> in
      case append_result E (n_append w) of
        Appended \<Rightarrow>
          Inr (True, log INFO ''append_row_with_retry: row written'' [] (w1\<lparr>sheet := sheet w1 @ [data]\<rparr>))
      | APIError status_code \<Rightarrow>
         (let w2 = log ERROR ''append_row_with_retry: API error'' [LNum status_code, LNum (attempt + 1)] w1 in
          if status_code = 429 \<or> status_code = 500 \<or> status_code = 503 then
            (if attempt < max_retries then
               (let w3 = log WARNING ''append_row_with_retry: retrying'' [] w2 in
                case sleep delay w3 of
                  Inl e \<Rightarrow> Inl (e, w3)
                | Inr w4 \<Rightarrow>
                   (case get_worksheet_with_retry E 2 5 w4 of
                      Inl raised \<Rightarrow> Inl raised
                    | Inr (True, w5) \<Rightarrow> append_attempts E data max_retries delay rest w5
                    | Inr (False, w5) \<Rightarrow>
                        Inr (False, log ERROR ''append_row_with_retry: no worksheet before retry'' [] w5)))
             else Inr (False, log ERROR ''append_row_with_retry: failed after all attempts''
                               [LNum (max_retries + 1)] w2))
          else Inr (False, log ERROR ''append_row_with_retry: API error not recoverable''
                            [LNum status_code] w2))
      | OtherException \<Rightarrow>
          Inr (False, log ERROR ''append_row_with_retry: unexpected error'' [LNum (attempt + 1)] w1))"

definition append_row_with_retry ::
  "env \<Rightarrow> completed \<Rightarrow> int \<Rightarrow> int \<Rightarrow> world \<Rightarrow> pyerr \<times> world + bool \<times> world" where
  "append_row_with_retry E data max_retries delay w =
     (case get_worksheet_with_retry E 2 5 w of
        Inl raised \<Rightarrow> Inl raised
      | Inr (False, w1) \<Rightarrow> Inr (False, log ERROR ''append_row_with_retry: no worksheet'' [] w1)
      | Inr (True, w1) \<Rightarrow> append_attempts E data max_retries delay [0..max_retries] w1)"

section \<open>The handlers\<close>

text \<open>What the handlers read of a Telegram update.  A message always has its chat.\<close>

record tg_user =
  user_id :: int
  username :: "string option"
  first_name :: string

record tg_location =
  live_period :: "int option"

record tg_message =
  chat_id :: int
  message_id :: int
  from_user :: "tg_user option"
  location :: "tg_location option"

record tg_update =
  message :: "tg_message option"
  edited_message :: "tg_message option"

text \<open>
  \<^verbatim>\<open>format_duration\<close>: \<^verbatim>\<open>HH:MM:SS\<close>, the hours counting the days in.
\<close>

definition format_duration :: "int \<Rightarrow> pyerr + string" where
  "format_duration total_seconds =
     (let total_seconds = (if total_seconds < 0 then 0 else total_seconds) in
      case timedelta_seconds total_seconds of
        Inl e \<Rightarrow> Inl e
      | Inr td \<Rightarrow>
         (let days = td div 86400000000; seconds = td mod 86400000000 div 1000000;
              mm = seconds div 60; ss = seconds mod 60;
              hh = mm div 60; mm = mm mod 60;
              total_hours = days * 24 + hh
          in Inr (zpad 2 total_hours @ CHR '':'' # zpad 2 mm @ CHR '':'' # zpad 2 ss)))"

text \<open>
  \<^verbatim>\<open>handle_location\<close>, with \<open>now_utc\<close> the reading of \<^verbatim>\<open>datetime.now(UTC_TZ)\<close>.  Nothing in it
  can raise: \<^verbatim>\<open>save_state\<close> catches what its own steps raise.
\<close>

definition handle_location :: "env \<Rightarrow> tg_update \<Rightarrow> datetime \<Rightarrow> world \<Rightarrow> world" where
  "handle_location E update now_utc w =
     (case message update of
        None \<Rightarrow> w
      | Some msg \<Rightarrow>
         (case from_user msg of
            None \<Rightarrow> w
          | Some user \<Rightarrow>
             (case location msg of
                None \<Rightarrow> w
              | Some current_location \<Rightarrow>
                 (case live_period current_location of
                    None \<Rightarrow> w
                  | Some p \<Rightarrow>
                     if p \<noteq> 0 \<and> p > 0 then
                       (let share_key = (chat_id msg, message_id msg);
                            name = (case username user of
                                      None \<Rightarrow> first_name user
                                    | Some n \<Rightarrow> if n \<noteq> [] then n else first_name user);
                            w1 = (if map_of (active_shares w) share_key \<noteq> None
                                  then log WARNING ''handle_location: share already active, overwriting''
                                         [LKey share_key] w
                                  else w);
                            w2 = w1\<lparr>active_shares :=
                                   AList.update share_key
                                     (PDict [(''user_id'', PInt (user_id user)), (''username'', PStr name),
                                             (''start_time'', PDatetime now_utc),
                                             (''last_update'', PDatetime now_utc)])
                                     (active_shares w1)\<rparr>;
                            w3 = log INFO ''handle_location: share started'' [LKey share_key] w2
                        in save_state E (active_shares w3) STATE_FILENAME w3)
                     else w))))"

text \<open>
  The completed record of \<^verbatim>\<open>handle_edited_location\<close>: everything between the test for the
  end of the share and the call of \<^verbatim>\<open>append_row_with_retry\<close>.  None of its exceptions is
  caught by the handler.
\<close>

definition close_record :: "env \<Rightarrow> datetime \<Rightarrow> pyval \<Rightarrow> pyval \<Rightarrow> pyval \<Rightarrow> pyerr + completed" where
  "close_record E now_utc share_info uname uid =
     (case subscript share_info ''start_time'' of
        Inl e \<Rightarrow> Inl e
      | Inr (PDatetime st) \<Rightarrow>
         (let start_time_utc = (if tzinfo st = None then localize_utc st else st) in
          case dt_sub now_utc start_time_utc of
            Inl e \<Rightarrow> Inl e
          | Inr duration \<Rightarrow>
             (let duration_seconds = max 0 (total_seconds_int duration) in
              case astimezone (local_offset E) (BR_TZ E) start_time_utc of
                Inl e \<Rightarrow> Inl e
              | Inr start_br \<Rightarrow>
                 (case astimezone (local_offset E) (BR_TZ E) now_utc of
                    Inl e \<Rightarrow> Inl e
                  | Inr end_br \<Rightarrow>
                     (case format_duration duration_seconds of
                        Inl e \<Rightarrow> Inl e
                      | Inr duration_str \<Rightarrow>
                          Inr \<lparr>COL_USERID = uid, COL_USERNAME = uname,
                               COL_START_BR = start_br, COL_END_BR = end_br,
                               COL_DURATION = duration_str,
                               COL_START_UTC = start_time_utc, COL_END_UTC = now_utc,
                               COL_DURATION_SEC = duration_seconds\<rparr>))))
      | Inr x \<Rightarrow> Inl AttributeError)"

text \<open>
  \<^verbatim>\<open>handle_edited_location\<close>.  An exception that leaves the handler is the result \<open>Inl\<close>.
\<close>

definition handle_edited_location ::
  "env \<Rightarrow> tg_update \<Rightarrow> datetime \<Rightarrow> world \<Rightarrow> pyerr + world" where
  "handle_edited_location E update now_utc w =
     (case edited_message update of
        None \<Rightarrow> Inr w
      | Some edited \<Rightarrow>
         if message_id edited = 0 then Inr w else
         (let share_key = (chat_id edited, message_id edited) in
          case map_of (active_shares w) share_key of
            None \<Rightarrow> Inr w
          | Some share_info \<Rightarrow>
             if \<not> truthy share_info then
               Inr (log WARNING ''handle_edited_location: share key disappeared'' [LKey share_key] w)
             else
              (case get_default share_info ''username'' (PStr ''N/A'') of
                 Inl e \<Rightarrow> Inl e
               | Inr uname \<Rightarrow>
                  (case get_default share_info ''user_id'' (PStr ''N/A'') of
                     Inl e \<Rightarrow> Inl e
                   | Inr uid \<Rightarrow>
                      if (case location edited of
                            None \<Rightarrow> True
                          | Some loc \<Rightarrow> (case live_period loc of None \<Rightarrow> True | Some p \<Rightarrow> p = 0))
                      then
                        (case close_record E now_utc share_info uname uid of
                           Inl e \<Rightarrow> Inl e
                         | Inr row_data \<Rightarrow>
                            (case append_row_with_retry E row_data 2 5
                                    (log INFO ''handle_edited_location: share ended'' [LKey share_key] w) of
                               Inl raised \<Rightarrow> Inl (fst raised)
                             | Inr (success, w1) \<Rightarrow>
                                 (let w2 = (if \<not> success
                                            then log ERROR ''handle_edited_location: row not written''
                                                   [LKey share_key] w1
                                            else w1)
                                  in if map_of (active_shares w2) share_key \<noteq> None then
                                       (let w3 = log INFO ''handle_edited_location: share removed''
                                                   [LKey share_key]
                                                   (w2\<lparr>active_shares :=
                                                         AList.delete share_key (active_shares w2)\<rparr>)
                                        in Inr (save_state E (active_shares w3) STATE_FILENAME w3))
                                     else Inr w2)))
                      else
                        (case set_item share_info ''last_update'' (PDatetime now_utc) of
                           Inl e \<Rightarrow> Inl e
                         | Inr v \<Rightarrow>
                            (let w1 = w\<lparr>active_shares := AList.update share_key v (active_shares w)\<rparr>
                             in Inr (save_state E (active_shares w1) STATE_FILENAME w1)))))))"

section \<open>The periodic sweep\<close>

text \<open>
  One pass of the first loop of \<^verbatim>\<open>cleanup_inactive_shares\<close> over a key: whether the key is
  marked for removal, or the exception that the loop catches and logs.
\<close>

definition is_inactive :: "datetime \<Rightarrow> int \<Rightarrow> pyval \<Rightarrow> pyerr + bool" where
  "is_inactive now_utc inactive_limit share_info =
     (case get_default share_info ''start_time'' PNone of
        Inl e \<Rightarrow> Inl e
      | Inr st \<Rightarrow>
         (case get_default share_info ''last_update'' st of
            Inl e \<Rightarrow> Inl e
          | Inr (PDatetime lu) \<Rightarrow>
             (let last_update = (if tzinfo lu = None then localize_utc lu else lu) in
              case dt_sub now_utc last_update of
                Inl e \<Rightarrow> Inl e
              | Inr age \<Rightarrow> Inr (age > inactive_limit))
          | Inr x \<Rightarrow> Inl AttributeError))"

fun mark_inactive ::
  "datetime \<Rightarrow> int \<Rightarrow> store \<Rightarrow> share_key list \<Rightarrow> share_key list \<times> logrec list
     \<Rightarrow> share_key list \<times> logrec list" where
  "mark_inactive now_utc inactive_limit shares [] r = r"
| "mark_inactive now_utc inactive_limit shares (key # keys) r =
     (case r of (keys_to_remove, lg) \<Rightarrow>
        mark_inactive now_utc inactive_limit shares keys
          (case map_of shares key of
             None \<Rightarrow> r
           | Some share_info \<Rightarrow>
              if \<not> truthy share_info then r
              else (case is_inactive now_utc inactive_limit share_info of
                      Inr True \<Rightarrow>
                        (keys_to_remove @ [key],
                         lg @ [(INFO, ''cleanup_inactive_shares: marked'', [LKey key])])
                    | Inr False \<Rightarrow> r
                    | Inl e \<Rightarrow>
                        if e = KeyError
                        then (keys_to_remove,
                              lg @ [(WARNING, ''cleanup_inactive_shares: key disappeared'', [LKey key])])
                        else (keys_to_remove,
                              lg @ [(ERROR, ''cleanup_inactive_shares: unexpected error'',
                                     [LKey key, LErr e])]))))"

text \<open>The second loop: the marked keys are deleted and counted.\<close>

fun remove_marked :: "share_key list \<Rightarrow> store \<times> int \<Rightarrow> store \<times> int" where
  "remove_marked [] r = r"
| "remove_marked (key # keys) r =
     (case r of (shares, removed_count) \<Rightarrow>
        remove_marked keys
          (if map_of shares key \<noteq> None then (AList.delete key shares, removed_count + 1) else r))"

definition cleanup_inactive_shares :: "env \<Rightarrow> datetime \<Rightarrow> world \<Rightarrow> pyerr + world" where
  "cleanup_inactive_shares E now_utc w =
     (let w0 = log INFO ''cleanup_inactive_shares: sweep started'' [] w in
      case timedelta_hours (MAX_INACTIVE_HOURS E) of
        Inl e \<Rightarrow> Inl e
      | Inr inactive_limit \<Rightarrow>
         (case mark_inactive now_utc inactive_limit (active_shares w0)
                  (map fst (active_shares w0)) ([], []) of
            (keys_to_remove, lg) \<Rightarrow>
              (let w1 = w0\<lparr>logs := logs w0 @ lg\<rparr> in
               if keys_to_remove \<noteq> [] then
                 (case remove_marked keys_to_remove (active_shares w1, 0) of
                    (shares, removed_count) \<Rightarrow>
                      (let w2 = log INFO ''cleanup_inactive_shares: removed'' [LNum removed_count]
                                  (w1\<lparr>active_shares := shares\<rparr>)
                       in if removed_count \<noteq> 0
                          then Inr (save_state E (active_shares w2) STATE_FILENAME w2)
                          else Inr w2))
               else Inr (log INFO ''cleanup_inactive_shares: nothing to remove'' [] w1))))"

text \<open>A run of open events, each with the clock reading it is handled at.\<close>

fun handle_locations :: "env \<Rightarrow> (tg_update \<times> datetime) list \<Rightarrow> world \<Rightarrow> world" where
  "handle_locations E [] w = w"
| "handle_locations E ((update, now_utc) # rest) w =
     handle_locations E rest (handle_location E update now_utc w)"

section \<open>Notions of the claims\<close>




text \<open>A timestamp as the handlers write it: in range, and aware with the zone UTC.\<close>

definition valid_utc :: "datetime \<Rightarrow> bool" where
  "valid_utc d = (valid_datetime d \<and> tzinfo d = Some 0)"

definition utc_timestamp :: "pyval option \<Rightarrow> bool" where
  "utc_timestamp x = (case x of Some (PDatetime d) \<Rightarrow> valid_utc d | _ \<Rightarrow> False)"

text \<open>
  A well-formed session: a dictionary with \<^verbatim>\<open>start_time\<close> and \<^verbatim>\<open>last_update\<close> aware UTC
  timestamps, with \<^verbatim>\<open>user_id\<close> and \<^verbatim>\<open>username\<close> present, and with nothing but JSON values
  under every key other than the two timestamps.  A well-formed store is a dictionary of
  well-formed sessions.
\<close>

fun wf_session :: "pyval \<Rightarrow> bool" where
  "wf_session (PDict kvs) =
     (distinct (map fst kvs) \<and>
      utc_timestamp (map_of kvs ''start_time'') \<and> utc_timestamp (map_of kvs ''last_update'') \<and>
      map_of kvs ''user_id'' \<noteq> None \<and> map_of kvs ''username'' \<noteq> None \<and>
      list_all (\<lambda>p. fst p = ''start_time'' \<or> fst p = ''last_update'' \<or> json_serializable (snd p)) kvs)"
| "wf_session v = False"

definition wf_store :: "store \<Rightarrow> bool" where
  "wf_store s = (distinct (map fst s) \<and> list_all (\<lambda>p. wf_session (snd p)) s)"

text \<open>
  What the first loop of the sweep decides for an entry: marked for removal when the
  entry is not falsy and its age test comes out true.
\<close>

definition stale :: "datetime \<Rightarrow> int \<Rightarrow> pyval \<Rightarrow> bool" where
  "stale now_utc inactive_limit share_info =
     (truthy share_info \<and> is_inactive now_utc inactive_limit share_info = Inr True)"

text \<open>A timestamp as the sweep and the close read it: a naive one is taken as UTC.\<close>

definition as_utc :: "datetime \<Rightarrow> datetime" where
  "as_utc d = (if tzinfo d = None then localize_utc d else d)"

text \<open>
  The \<^verbatim>\<open>last_update\<close> of a session, and the test of the sweep as the claims word it: the
  time since \<^verbatim>\<open>last_update\<close> is above the threshold.
\<close>

definition last_update_of :: "pyval \<Rightarrow> datetime option" where
  "last_update_of v =
     (case v of
        PDict kvs \<Rightarrow> (case map_of kvs ''last_update'' of Some (PDatetime d) \<Rightarrow> Some d | _ \<Rightarrow> None)
      | _ \<Rightarrow> None)"

definition expired :: "datetime \<Rightarrow> int \<Rightarrow> pyval \<Rightarrow> bool" where
  "expired now_utc threshold v =
     (case last_update_of v of
        Some lu \<Rightarrow> utc_micros now_utc - utc_micros (as_utc lu) > threshold
      | None \<Rightarrow> False)"

text \<open>The session that \<^verbatim>\<open>handle_location\<close> writes for a user at a clock reading.\<close>

definition new_session :: "tg_user \<Rightarrow> datetime \<Rightarrow> pyval" where
  "new_session user now_utc =
     PDict [(''user_id'', PInt (user_id user)),
            (''username'', PStr (case username user of
                                  None \<Rightarrow> first_name user
                                | Some n \<Rightarrow> if n \<noteq> [] then n else first_name user)),
            (''start_time'', PDatetime now_utc), (''last_update'', PDatetime now_utc)]"

text \<open>
  A step of \<^verbatim>\<open>save_state\<close> fails: the preparation of the data, the opening of the temporary
  file, \<^verbatim>\<open>json.dump\<close> (on a value it cannot write, or on an I/O error), or \<^verbatim>\<open>os.replace\<close>.
\<close>

definition save_fails :: "io_faults \<Rightarrow> store \<Rightarrow> bool" where
  "save_fails io data =
     (case prepare data [] of
        Inl e \<Rightarrow> True
      | Inr data_to_save \<Rightarrow>
          open_fails io \<or> \<not> json_serializable (PDict data_to_save) \<or> write_fails io \<or>
          replace_fails io)"

text \<open>The snapshot of a store: what \<^verbatim>\<open>json.dump\<close> writes for it.\<close>

definition snapshot :: "store \<Rightarrow> file_content option" where
  "snapshot data =
     (case prepare data [] of Inl e \<Rightarrow> None | Inr data_to_save \<Rightarrow> Some (Json (PDict data_to_save)))"

section \<open>Concrete runs\<close>

text \<open>The values at which the theorems below are instantiated.\<close>

definition t0 :: datetime where
  "t0 = \<lparr>year = 2024, month = 3, day = 15, hour = 12, minute = 0, second = 0,
          microsecond = 0, tzinfo = Some 0\<rparr>"

definition no_faults :: io_faults where
  "no_faults = \<lparr>open_fails = False, write_fails = False, replace_fails = False,
                 remove_fails = False\<rparr>"

text \<open>A sheet that answers every call, one that is rate-limited, and one that goes away
  after the first probe.\<close>

definition env_ok :: env where
  "env_ok = \<lparr>probe_ok = (\<lambda>k. True), setup_result = (\<lambda>k. SetupOk),
              append_result = (\<lambda>k. Appended), io_result = (\<lambda>k. no_faults),
              local_offset = (\<lambda>d. Inr 0), BR_TZ = (\<lambda>d. - 10800000000),
              MAX_INACTIVE_HOURS = 9\<rparr>"






definition world0 :: world where
  "world0 = \<lparr>active_shares = [], gs_connected = True, files = Map.empty, sheet = [],
              slept = 0, logs = [], n_probe = 0, n_setup = 0, n_append = 0, n_save = 0\<rparr>"


text \<open>
  Ten hours and one hour before \<open>t0\<close>; a session idle for ten hours, one idle for an hour,
  and one without \<^verbatim>\<open>last_update\<close> that started ten hours ago.
\<close>

definition t_old :: datetime where
  "t_old = t0\<lparr>hour := 2\<rparr>"

definition t_recent :: datetime where
  "t_recent = t0\<lparr>hour := 11\<rparr>"

definition session_a :: pyval where
  "session_a = PDict [(''user_id'', PInt 7), (''username'', PStr ''alice''),
                      (''start_time'', PDatetime t_old), (''last_update'', PDatetime t_old)]"

definition session_b :: pyval where
  "session_b = PDict [(''user_id'', PInt 8), (''username'', PStr ''bob''),
                      (''start_time'', PDatetime t_old), (''last_update'', PDatetime t_recent)]"

definition session_c :: pyval where
  "session_c = PDict [(''user_id'', PInt 9), (''username'', PStr ''carol''),
                      (''start_time'', PDatetime t_old)]"

definition world1 :: world where
  "world1 = world0\<lparr>active_shares := [((100, 1), session_a), ((100, 2), session_b)]\<rparr>"

definition world2 :: world where
  "world2 = world0\<lparr>active_shares := [((100, 3), session_c)]\<rparr>"

text \<open>A user, and the update that opens a live location share in a chat.\<close>

definition alice :: tg_user where
  "alice = \<lparr>user_id = 7, username = Some ''alice'', first_name = ''Alice''\<rparr>"

definition open_msg :: "int \<Rightarrow> int \<Rightarrow> tg_message" where
  "open_msg c m = \<lparr>chat_id = c, message_id = m, from_user = Some alice,
                   location = Some \<lparr>live_period = Some 3600\<rparr>\<rparr>"

definition open_event :: "int \<Rightarrow> int \<Rightarrow> tg_update" where
  "open_event c m = \<lparr>message = Some (open_msg c m), edited_message = None\<rparr>"

text \<open>A disk on which writing fails, and a state file from an earlier save.\<close>

definition failing_write :: io_faults where
  "failing_write = no_faults\<lparr>write_fails := True\<rparr>"

definition old_snapshot :: filesystem where
  "old_snapshot = Map.empty(STATE_FILENAME \<mapsto> Json (PDict []))"

definition env_disk_full :: env where
  "env_disk_full = env_ok\<lparr>io_result := (\<lambda>k. failing_write)\<rparr>"

definition world3 :: world where
  "world3 = world1\<lparr>files := old_snapshot\<rparr>"

section \<open>Auxiliary definitions for the proofs\<close>

text \<open>The \<open>w\<close> lowest decimal digits of \<open>k\<close>, most significant first.\<close>

fun fixw :: "nat \<Rightarrow> nat \<Rightarrow> nat list" where
  "fixw 0 k = []"
| "fixw (Suc w) k = fixw w (k div 10) @ [k mod 10]"

section \<open>Integers and timestamps as text\<close>

lemma digit_char_cases: "digit_char n \<in> set ''0123456789''"
  unfolding digit_char_def by (intro nth_mem) simp

lemma digit_val_digit_char [simp]: "n < 10 \<Longrightarrow> digit_val (digit_char n) = Some n"
proof -
  assume n: "n < 10"
  have "map_of (zip ''0123456789'' [0..<10]) (''0123456789'' ! n) = Some ([0..<10] ! n)"
    using n by (intro map_of_zip_nth) simp_all
  then show ?thesis using n by (simp add: digit_val_def digit_char_def)
qed

lemma digit_char_not_special [simp]:
  "digit_char n \<noteq> CHR ''_''" "digit_char n \<noteq> CHR '':''" "digit_char n \<noteq> CHR ''-''"
  "digit_char n \<noteq> CHR ''+''" "digit_char n \<noteq> CHR ''.''" "\<not> is_space (digit_char n)"
  using digit_char_cases[of n] by (auto simp: is_space_def)

lemma special_not_digit_char [simp]:
  "CHR ''_'' \<noteq> digit_char n" "CHR '':'' \<noteq> digit_char n" "CHR ''-'' \<noteq> digit_char n"
  "CHR ''+'' \<noteq> digit_char n" "CHR ''.'' \<noteq> digit_char n"
  using digit_char_not_special[of n] by (simp_all add: eq_commute del: digit_char_not_special)

lemma minus_not_space [simp]: "\<not> is_space CHR ''-''"
  by (simp add: is_space_def)

lemma digit_list_lt10: "\<forall>d \<in> set (digit_list n). d < 10"
  by (induction n rule: digit_list.induct) (subst digit_list.simps, auto)

lemma digit_list_nonempty [simp]: "digit_list n \<noteq> []"
  by (subst digit_list.simps) simp

lemma digit_list_value: "foldl (\<lambda>a d. 10 * a + d) 0 (digit_list n) = n"
  by (induction n rule: digit_list.induct) (subst digit_list.simps, auto)

lemma parse_digits_map:
  "\<forall>d \<in> set ds. d < 10 \<Longrightarrow>
   parse_digits acc (map digit_char ds) = Some (foldl (\<lambda>a d. 10 * a + d) acc ds)"
  by (induction ds arbitrary: acc) auto

lemma dropWhile_hd: "xs \<noteq> [] \<Longrightarrow> \<not> P (hd xs) \<Longrightarrow> dropWhile P xs = xs"
  by (cases xs) auto

lemma strip_id: "s \<noteq> [] \<Longrightarrow> \<not> is_space (hd s) \<Longrightarrow> \<not> is_space (last s) \<Longrightarrow> strip s = s"
  by (simp add: strip_def dropWhile_hd hd_rev)

lemma py_int_digits: "py_int (digits n) = Inr (int n)"
proof -
  obtain d ds where dl: "digit_list n = d # ds" by (cases "digit_list n") auto
  have lt: "\<forall>x \<in> set (d # ds). x < 10" using digit_list_lt10[of n] dl by simp
  have v: "foldl (\<lambda>a d. 10 * a + d) d ds = n" using digit_list_value[of n] dl by simp
  have "strip (digits n) = digits n"
    by (rule strip_id) (simp_all add: digits_def hd_map last_map)
  then show ?thesis using lt v
    by (simp add: py_int_def digits_def dl parse_digits_map)
qed

lemma py_int_str_int: "py_int (str_int i) = Inr i"
proof (cases "i < 0")
  case False then show ?thesis using py_int_digits[of "nat i"] by (simp add: str_int_def)
next
  case True
  obtain d ds where dl: "digit_list (nat (- i)) = d # ds" by (cases "digit_list (nat (- i))") auto
  have lt: "\<forall>x \<in> set (d # ds). x < 10" using digit_list_lt10[of "nat (-i)"] dl by simp
  have v: "foldl (\<lambda>a d. 10 * a + d) d ds = nat (- i)" using digit_list_value[of "nat (-i)"] dl by simp
  have "strip (CHR ''-'' # digits (nat (- i))) = CHR ''-'' # digits (nat (- i))"
    by (rule strip_id) (simp_all add: digits_def last_map)
  then show ?thesis using lt v True
    by (simp add: py_int_def str_int_def digits_def dl parse_digits_map)
qed

lemma split_on_no_sep: "sep \<notin> set s \<Longrightarrow> split_on sep s = [s]"
  by (induction s) auto

lemma split_on_append: "sep \<notin> set a \<Longrightarrow> split_on sep (a @ sep # b) = a # split_on sep b"
  by (induction a) auto

lemma digits_chars: "c \<in> set (digits n) \<Longrightarrow> c \<noteq> CHR '':''"
  unfolding digits_def by auto

lemma colon_notin_str_int [simp]: "CHR '':'' \<notin> set (str_int i)"
  using digits_chars[of "CHR '':''"] by (simp add: str_int_def) blast

lemma split_key: "split_on CHR '':'' (str_int a @ CHR '':'' # str_int b) = [str_int a, str_int b]"
  by (simp add: split_on_append split_on_no_sep)

lemma digit_list_small: "n < 10 \<Longrightarrow> digit_list n = [n]"
  by (subst digit_list.simps) simp

lemma digit_list_big: "10 \<le> n \<Longrightarrow> digit_list n = digit_list (n div 10) @ [n mod 10]"
  by (subst digit_list.simps) simp

lemma fixw_zero: "fixw w 0 = replicate w 0"
  by (induction w) (simp_all add: replicate_append_same)

lemma pad_fixw:
  "k < 10 ^ w \<Longrightarrow> 0 < w \<Longrightarrow> replicate (w - length (digit_list k)) 0 @ digit_list k = fixw w k"
proof (induction w arbitrary: k)
  case 0 then show ?case by simp
next
  case (Suc w)
  show ?case
  proof (cases "k < 10")
    case True then show ?thesis by (simp add: digit_list_small fixw_zero)
  next
    case False
    then have w: "0 < w" using Suc.prems by (cases w) auto
    have "k div 10 < 10 ^ w" using Suc.prems by (simp add: less_mult_imp_div_less mult.commute)
    from Suc.IH[OF this w] False show ?thesis
      by (simp add: digit_list_big Suc_diff_le)
  qed
qed

lemma digit_char_0 [simp]: "digit_char 0 = CHR ''0''"
  by (simp add: digit_char_def)

lemma zpad_fixw: "0 \<le> n \<Longrightarrow> n < 10 ^ w \<Longrightarrow> 0 < w \<Longrightarrow> zpad w n = map digit_char (fixw w (nat n))"
proof -
  assume a: "0 \<le> n" "n < 10 ^ w" "0 < w"
  then have "nat n < 10 ^ w" by (simp add: nat_less_iff)
  from pad_fixw[OF this a(3)] have
    "map digit_char (replicate (w - length (digit_list (nat n))) 0 @ digit_list (nat n))
       = map digit_char (fixw w (nat n))" by simp
  then show ?thesis by (simp add: zpad_def digits_def Let_def)
qed

lemma fixw2: "fixw 2 k = [k div 10 mod 10, k mod 10]"
proof -
  have h: "(2::nat) = Suc (Suc 0)" by simp
  show ?thesis by (subst h) simp
qed

lemma fixw4: "fixw 4 k = [k div 10 div 10 div 10 mod 10, k div 10 div 10 mod 10, k div 10 mod 10, k mod 10]"
proof -
  have h: "(4::nat) = Suc (Suc (Suc (Suc 0)))" by simp
  show ?thesis by (subst h) simp
qed

lemma fixw6: "fixw 6 k = [k div 10 div 10 div 10 div 10 div 10 mod 10, k div 10 div 10 div 10 div 10 mod 10,
      k div 10 div 10 div 10 mod 10, k div 10 div 10 mod 10, k div 10 mod 10, k mod 10]"
proof -
  have h: "(6::nat) = Suc (Suc (Suc (Suc (Suc (Suc 0)))))" by simp
  show ?thesis by (subst h) simp
qed

lemma zpad2: "0 \<le> n \<Longrightarrow> n < 100 \<Longrightarrow>
   zpad 2 n = [digit_char (nat n div 10 mod 10), digit_char (nat n mod 10)]"
  using zpad_fixw[of n 2] by (simp add: fixw2)

lemma zpad4: "0 \<le> n \<Longrightarrow> n < 10000 \<Longrightarrow>
   zpad 4 n = [digit_char (nat n div 10 div 10 div 10 mod 10), digit_char (nat n div 10 div 10 mod 10),
               digit_char (nat n div 10 mod 10), digit_char (nat n mod 10)]"
  using zpad_fixw[of n 4] by (simp add: fixw4)

lemma zpad6: "0 \<le> n \<Longrightarrow> n < 1000000 \<Longrightarrow>
   zpad 6 n = [digit_char (nat n div 10 div 10 div 10 div 10 div 10 mod 10),
               digit_char (nat n div 10 div 10 div 10 div 10 mod 10),
               digit_char (nat n div 10 div 10 div 10 mod 10), digit_char (nat n div 10 div 10 mod 10),
               digit_char (nat n div 10 mod 10), digit_char (nat n mod 10)]"
  using zpad_fixw[of n 6] by (simp add: fixw6)

lemma num1_digit [simp]: "k < 10 \<Longrightarrow> num1 (digit_char k # r) = Some (int k, r)"
  by (simp add: num1_def)

lemma num2_zpad [simp]: "0 \<le> n \<Longrightarrow> n < 100 \<Longrightarrow> num2 (zpad 2 n @ r) = Some (n, r)"
  by (simp add: zpad2 num2_def zdiv_int zmod_int; presburger?)

lemma num4_zpad [simp]: "0 \<le> n \<Longrightarrow> n < 10000 \<Longrightarrow> num4 (zpad 4 n @ r) = Some (n, r)"
  by (simp add: zpad4 num4_def num2_def zdiv_int zmod_int; presburger?)

lemma num6_zpad [simp]: "0 \<le> n \<Longrightarrow> n < 1000000 \<Longrightarrow> num6 (zpad 6 n @ r) = Some (n, r)"
  by (simp add: zpad6 num6_def num3_def num2_def zdiv_int zmod_int; presburger?)

lemma length_zpad [simp]: "0 \<le> n \<Longrightarrow> n < 100 \<Longrightarrow> length (zpad 2 n) = 2"
  "0 \<le> n \<Longrightarrow> n < 1000000 \<Longrightarrow> length (zpad 6 n) = 6"
  by (simp_all add: zpad2 zpad6)

lemma zpad_not_sign [simp]:
  "0 \<le> n \<Longrightarrow> n < 100 \<Longrightarrow> \<forall>c \<in> set (zpad 2 n). not_sign c"
  "0 \<le> n \<Longrightarrow> n < 1000000 \<Longrightarrow> \<forall>c \<in> set (zpad 6 n). not_sign c"
  by (simp_all add: zpad2 zpad6 not_sign_def)

lemma num2_zpad' [simp]: "0 \<le> n \<Longrightarrow> n < 100 \<Longrightarrow> num2 (zpad 2 n) = Some (n, [])"
  using num2_zpad[of n "[]"] by simp

lemma num6_zpad' [simp]: "0 \<le> n \<Longrightarrow> n < 1000000 \<Longrightarrow> num6 (zpad 6 n) = Some (n, [])"
  using num6_zpad[of n "[]"] by simp

lemma lit_Cons [simp]: "lit c (c # r) = Some r"
  by (simp add: lit_def)

lemma zpad2_nonempty [simp]: "0 \<le> n \<Longrightarrow> n < 100 \<Longrightarrow> zpad 2 n \<noteq> []"
  by (simp add: zpad2)

lemma parse_hm:
  "0 \<le> a \<Longrightarrow> a < 100 \<Longrightarrow> 0 \<le> b \<Longrightarrow> b < 100 \<Longrightarrow>
   parse_hh_mm_ss_ff (zpad 2 a @ CHR '':'' # zpad 2 b) = Some (a, b, 0, 0)"
  by (simp add: parse_hh_mm_ss_ff_def)

lemma parse_hms:
  "0 \<le> a \<Longrightarrow> a < 100 \<Longrightarrow> 0 \<le> b \<Longrightarrow> b < 100 \<Longrightarrow> 0 \<le> c \<Longrightarrow> c < 100 \<Longrightarrow>
   parse_hh_mm_ss_ff (zpad 2 a @ CHR '':'' # zpad 2 b @ CHR '':'' # zpad 2 c) = Some (a, b, c, 0)"
  by (simp add: parse_hh_mm_ss_ff_def)

lemma parse_hmsf:
  "0 \<le> a \<Longrightarrow> a < 100 \<Longrightarrow> 0 \<le> b \<Longrightarrow> b < 100 \<Longrightarrow> 0 \<le> c \<Longrightarrow> c < 100 \<Longrightarrow>
   0 \<le> f \<Longrightarrow> f < 1000000 \<Longrightarrow>
   parse_hh_mm_ss_ff (zpad 2 a @ CHR '':'' # zpad 2 b @ CHR '':'' # zpad 2 c @ CHR ''.'' # zpad 6 f)
     = Some (a, b, c, f)"
  by (simp add: parse_hh_mm_ss_ff_def)

lemma parse_iso_time:
  "valid_datetime d \<Longrightarrow>
   parse_hh_mm_ss_ff (iso_time d) = Some (hour d, minute d, second d, microsecond d)"
  by (simp add: iso_time_def valid_datetime_def parse_hms parse_hmsf)

lemma int_div_less: fixes a :: int assumes "0 < b" "a < b * n" shows "a div b < n"
proof (rule ccontr)
  assume "\<not> a div b < n"
  then have "b * n \<le> b * (a div b)" using assms(1) by (simp add: mult_left_mono)
  moreover have "b * (a div b) \<le> a" using assms(1)
    by (metis mult_div_mod_eq pos_mod_sign add_increasing2 order_refl)
  ultimately show False using assms(2) by linarith
qed

lemma recompose:
  fixes a :: int
  assumes "a = 3600000000 * q1 + r1" "r1 = 60000000 * q2 + r2" "r2 = 1000000 * q3 + r3"
  shows "((q1 * 60 + q2) * 60 + q3) * 1000000 + r3 = a"
  using assms by simp

lemma offset_parts:
  fixes a :: int
  assumes "0 \<le> a" "a < 86400000000"
  shows "0 \<le> a div 3600000000" "a div 3600000000 < 100"
    "0 \<le> a mod 3600000000 div 60000000" "a mod 3600000000 div 60000000 < 100"
    "0 \<le> a mod 3600000000 mod 60000000 div 1000000" "a mod 3600000000 mod 60000000 div 1000000 < 100"
    "0 \<le> a mod 3600000000 mod 60000000 mod 1000000" "a mod 3600000000 mod 60000000 mod 1000000 < 1000000"
    "((a div 3600000000 * 60 + a mod 3600000000 div 60000000) * 60
        + a mod 3600000000 mod 60000000 div 1000000) * 1000000
        + a mod 3600000000 mod 60000000 mod 1000000 = a"
proof -
  show "0 \<le> a div 3600000000" using assms by (simp add: pos_imp_zdiv_nonneg_iff)
  show "a div 3600000000 < 100" using assms by (intro int_div_less) simp_all
  show "0 \<le> a mod 3600000000 div 60000000" by (simp add: pos_imp_zdiv_nonneg_iff)
  show "a mod 3600000000 div 60000000 < 100" by (intro int_div_less) simp_all
  show "0 \<le> a mod 3600000000 mod 60000000 div 1000000" by (simp add: pos_imp_zdiv_nonneg_iff)
  show "a mod 3600000000 mod 60000000 div 1000000 < 100" by (intro int_div_less) simp_all
  show "0 \<le> a mod 3600000000 mod 60000000 mod 1000000" by simp
  show "a mod 3600000000 mod 60000000 mod 1000000 < 1000000" by simp
  have "a = 3600000000 * (a div 3600000000) + a mod 3600000000" by simp
  moreover have "a mod 3600000000 = 60000000 * (a mod 3600000000 div 60000000) + a mod 3600000000 mod 60000000" by simp
  moreover have "a mod 3600000000 mod 60000000 = 1000000 * (a mod 3600000000 mod 60000000 div 1000000) + a mod 3600000000 mod 60000000 mod 1000000" by simp
  ultimately show "((a div 3600000000 * 60 + a mod 3600000000 div 60000000) * 60
        + a mod 3600000000 mod 60000000 div 1000000) * 1000000
        + a mod 3600000000 mod 60000000 mod 1000000 = a" by (rule recompose)
qed

lemma parse_offset_text:
  "0 \<le> a \<Longrightarrow> a < 100 \<Longrightarrow> 0 \<le> b \<Longrightarrow> b < 100 \<Longrightarrow> 0 \<le> c \<Longrightarrow> c < 100 \<Longrightarrow>
   0 \<le> f \<Longrightarrow> f < 1000000 \<Longrightarrow>
   parse_offset (offset_text neg a b c f) =
     Some (Some ((if neg then - 1 else 1) * (((a * 60 + b) * 60 + c) * 1000000 + f)))"
  by (simp add: offset_text_def parse_offset_def parse_hm parse_hms parse_hmsf)

lemma parse_format_offset:
  assumes "case tz of None \<Rightarrow> True | Some off \<Rightarrow> - 86400000000 < off \<and> off < 86400000000"
  shows "parse_offset (format_offset tz) = Some tz"
proof (cases tz)
  case None then show ?thesis by (simp add: format_offset_def parse_offset_def)
next
  case (Some x)
  then have b: "- 86400000000 < x" "x < 86400000000" using assms by simp_all
  have "0 \<le> \<bar>x\<bar>" "\<bar>x\<bar> < 86400000000" using b by simp_all
  note p = offset_parts[OF this]
  have "parse_offset (format_offset tz) =
      Some (Some ((if x < 0 then - 1 else 1) * \<bar>x\<bar>))"
    unfolding Some format_offset_def Let_def option.case
    by (subst parse_offset_text[OF p(1-8)]) (simp only: p(9))
  then show ?thesis using Some by (simp add: abs_if)
qed

lemma take_drop_while:
  "\<forall>x \<in> set xs. P x \<Longrightarrow> ys = [] \<or> \<not> P (hd ys) \<Longrightarrow>
   takeWhile P (xs @ ys) = xs \<and> dropWhile P (xs @ ys) = ys"
  by (cases ys) (auto simp: takeWhile_append2 dropWhile_append3)

lemma iso_time_not_sign: "valid_datetime d \<Longrightarrow> \<forall>c \<in> set (iso_time d). not_sign c"
  by (auto simp: iso_time_def valid_datetime_def not_sign_def zpad2 zpad6)

lemma format_offset_head: "format_offset tz = [] \<or> \<not> not_sign (hd (format_offset tz))"
  by (cases tz) (simp_all add: format_offset_def offset_text_def not_sign_def Let_def)

lemma days_in_month_le: "days_in_month y m \<le> 31"
  by (simp add: days_in_month_def)

lemma parse_isoformat_isoformat:
  assumes v: "valid_datetime d"
  shows "parse_isoformat (isoformat d) = Some d"
proof -
  from take_drop_while[OF iso_time_not_sign[OF v] format_offset_head[of "tzinfo d"]]
  have td: "takeWhile not_sign (iso_time d @ format_offset (tzinfo d)) = iso_time d"
           "dropWhile not_sign (iso_time d @ format_offset (tzinfo d)) = format_offset (tzinfo d)"
    by simp_all
  have tz: "parse_offset (format_offset (tzinfo d)) = Some (tzinfo d)"
    using v by (intro parse_format_offset) (simp add: valid_datetime_def)
  have y: "0 \<le> year d" "year d < 10000" "0 \<le> month d" "month d < 100" "0 \<le> day d" "day d < 100"
    using v days_in_month_le[of "year d" "month d"] by (auto simp: valid_datetime_def)
  show ?thesis
    using y by (simp add: parse_isoformat_def isoformat_def iso_date_def td tz parse_iso_time[OF v])
qed

lemma fromisoformat_isoformat: "valid_datetime d \<Longrightarrow> fromisoformat (isoformat d) = Inr d"
  by (simp add: fromisoformat_def parse_isoformat_isoformat)

section \<open>The sheet: frame and retry bound\<close>

lemma log_simps [simp]:
  "active_shares (log l m a w) = active_shares w" "gs_connected (log l m a w) = gs_connected w"
  "files (log l m a w) = files w" "sheet (log l m a w) = sheet w" "slept (log l m a w) = slept w"
  "n_probe (log l m a w) = n_probe w" "n_setup (log l m a w) = n_setup w"
  "n_append (log l m a w) = n_append w" "n_save (log l m a w) = n_save w"
  "logs (log l m a w) = logs w @ [(l, m, a)]"
  by (simp_all add: log_def)

lemma sleep_ok: "0 \<le> d \<Longrightarrow> sleep d w = Inr (w\<lparr>slept := slept w + d\<rparr>)"
  by (simp add: sleep_def)





lemma setup_attempts_returns:
  "0 \<le> d \<Longrightarrow> \<exists>b w'. setup_attempts E mr d xs w = Inr (b, w')"
proof (induction xs arbitrary: w)
  case Nil then show ?case by auto
next
  case (Cons a xs)
  obtain b1 w1 where s: "setup_google_sheets E w = (b1, w1)" by (cases "setup_google_sheets E w")
  show ?case using s Cons.IH[OF Cons.prems] Cons.prems
    by (cases b1) (auto simp: Let_def sleep_ok)
qed

lemma get_worksheet_returns:
  "0 \<le> d \<Longrightarrow> \<exists>b w'. get_worksheet_with_retry E mr d w = Inr (b, w')"
  using setup_attempts_returns[of d E mr] by (auto simp: get_worksheet_with_retry_def Let_def)








section \<open>The periodic sweep: what it removes\<close>

lemma save_state_simps [simp]:
  "active_shares (save_state E d f w) = active_shares w"
  "gs_connected (save_state E d f w) = gs_connected w"
  "sheet (save_state E d f w) = sheet w" "slept (save_state E d f w) = slept w"
  "n_probe (save_state E d f w) = n_probe w" "n_setup (save_state E d f w) = n_setup w"
  "n_append (save_state E d f w) = n_append w" "n_save (save_state E d f w) = Suc (n_save w)"
  by (simp_all add: save_state_def split: prod.splits)

lemma save_state_logs [simp]:
  "logs (save_state E d f w) = logs w @ snd (write_state (io_result E (n_save w)) d f (files w))"
  "files (save_state E d f w) = last (fst (write_state (io_result E (n_save w)) d f (files w)))"
  by (simp_all add: save_state_def split: prod.splits)

lemma mark_inactive_fst:
  "fst (mark_inactive now lim shares keys r) =
   fst r @ filter (\<lambda>k. case map_of shares k of None \<Rightarrow> False | Some v \<Rightarrow> stale now lim v) keys"
proof (induction keys arbitrary: r)
  case Nil then show ?case by simp
next
  case (Cons k keys)
  obtain kr lg where r: "r = (kr, lg)" by (cases r)
  show ?case unfolding r
    by (simp add: Cons.IH stale_def split: option.splits sum.splits bool.splits)
qed

lemma remove_marked_distinct:
  "distinct keys \<Longrightarrow> set keys \<subseteq> fst ` set s \<Longrightarrow>
   remove_marked keys (s, c) = (filter (\<lambda>p. fst p \<notin> set keys) s, c + int (length keys))"
proof (induction keys arbitrary: s c)
  case Nil then show ?case by simp
next
  case (Cons k keys)
  have p: "map_of s k \<noteq> None" using Cons.prems(2) by (simp add: map_of_eq_None_iff)
  have d: "AList.delete k s = filter (\<lambda>p. fst p \<noteq> k) s"
    by (induction s) auto
  have sub: "set keys \<subseteq> fst ` set (AList.delete k s)"
    using Cons.prems unfolding d by force
  have "remove_marked (k # keys) (s, c) = remove_marked keys (AList.delete k s, c + 1)"
    using p by simp
  also have "\<dots> = (filter (\<lambda>p. fst p \<notin> set keys) (AList.delete k s), c + 1 + int (length keys))"
    using Cons.IH[OF _ sub] Cons.prems(1) by simp
  also have "filter (\<lambda>p. fst p \<notin> set keys) (AList.delete k s) = filter (\<lambda>p. fst p \<notin> set (k # keys)) s"
    unfolding d by (auto intro: filter_cong)
  finally show ?case by simp
qed

lemma remove_marked_count:
  "remove_marked keys (s, c) = (s', c') \<Longrightarrow>
   c \<le> c' \<and> length s' \<le> length s \<and> (c < c' \<longrightarrow> length s' < length s) \<and> (c' = c \<longrightarrow> s' = s)"
proof (induction keys arbitrary: s c)
  case Nil then show ?case by simp
next
  case (Cons k keys)
  show ?case
  proof (cases "map_of s k")
    case None
    then show ?thesis using Cons.prems Cons.IH[of s c] by simp
  next
    case (Some v)
    then have "(k, v) \<in> set s" by (rule map_of_SomeD)
    then have l: "length (AList.delete k s) < length s"
      by (induction s) (auto simp: le_imp_less_Suc length_delete_le)
    from Some Cons.prems have "remove_marked keys (AList.delete k s, c + 1) = (s', c')" by simp
    from Cons.IH[OF this] l show ?thesis by auto
  qed
qed

lemma stale_filter:
  assumes d: "distinct (map fst s)"
  shows "filter (\<lambda>p. fst p \<notin> set (filter (\<lambda>k. case map_of s k of None \<Rightarrow> False | Some v \<Rightarrow> P v) (map fst s))) s
       = filter (\<lambda>p. \<not> P (snd p)) s"
proof (rule filter_cong[OF refl])
  fix p assume "p \<in> set s"
  then have "map_of s (fst p) = Some (snd p)" using d by (simp add: map_of_eq_Some_iff)
  then show "(fst p \<notin> set (filter (\<lambda>k. case map_of s k of None \<Rightarrow> False | Some v \<Rightarrow> P v) (map fst s)))
      = (\<not> P (snd p))" using \<open>p \<in> set s\<close> by auto
qed

lemma stale_count:
  assumes d: "distinct (map fst s)"
  shows "length (filter (\<lambda>k. case map_of s k of None \<Rightarrow> False | Some v \<Rightarrow> P v) (map fst s))
       = length (filter (\<lambda>p. P (snd p)) s)"
proof -
  have "filter (\<lambda>k. case map_of s k of None \<Rightarrow> False | Some v \<Rightarrow> P v) (map fst s)
      = map fst (filter (\<lambda>p. P (snd p)) s)"
    unfolding filter_map
  proof (rule arg_cong[where f = "map fst"], rule filter_cong[OF refl])
    fix p assume "p \<in> set s"
    then have "map_of s (fst p) = Some (snd p)" using d by (simp add: map_of_eq_Some_iff)
    then show "((\<lambda>k. case map_of s k of None \<Rightarrow> False | Some v \<Rightarrow> P v) \<circ> fst) p = P (snd p)" by simp
  qed
  then show ?thesis by simp
qed


lemma stale_last_update:
  "tzinfo now \<noteq> None \<Longrightarrow> last_update_of v \<noteq> None \<Longrightarrow> stale now lim v = expired now lim v"
  by (cases v)
     (auto simp: last_update_of_def expired_def stale_def is_inactive_def dt_sub_def as_utc_def
        localize_utc_def Let_def split: option.splits pyval.splits)

lemma stale_start_time:
  "tzinfo now \<noteq> None \<Longrightarrow> map_of kvs ''last_update'' = None \<Longrightarrow>
   map_of kvs ''start_time'' = Some (PDatetime st) \<Longrightarrow>
   stale now lim (PDict kvs) = (utc_micros now - utc_micros (as_utc st) > lim)"
  by (auto simp: stale_def is_inactive_def dt_sub_def as_utc_def
        localize_utc_def Let_def split: option.splits pyval.splits)

lemma cleanup_store:
  assumes d: "distinct (map fst (active_shares w))"
      and t: "timedelta_hours (MAX_INACTIVE_HOURS E) = Inr lim"
  shows "\<exists>w'. cleanup_inactive_shares E now w = Inr w' \<and>
           active_shares w' = filter (\<lambda>p. \<not> stale now lim (snd p)) (active_shares w) \<and>
           (if filter (\<lambda>p. stale now lim (snd p)) (active_shares w) = []
            then last (logs w') = (INFO, ''cleanup_inactive_shares: nothing to remove'', []) \<and>
                 n_save w' = n_save w
            else (INFO, ''cleanup_inactive_shares: removed'',
                   [LNum (int (length (filter (\<lambda>p. stale now lim (snd p)) (active_shares w))))])
                   \<in> set (logs w') \<and> n_save w' = Suc (n_save w))"
proof -
  let ?s = "active_shares w"
  let ?m = "\<lambda>k. case map_of ?s k of None \<Rightarrow> False | Some v \<Rightarrow> stale now lim v"
  let ?kr = "filter ?m (map fst ?s)"
  obtain kr lg where m: "mark_inactive now lim ?s (map fst ?s) ([], []) = (kr, lg)"
    by (cases "mark_inactive now lim ?s (map fst ?s) ([], [])")
  have kr: "kr = ?kr" using mark_inactive_fst[of now lim ?s "map fst ?s" "([], [])"] m by simp
  have len: "length kr = length (filter (\<lambda>p. stale now lim (snd p)) ?s)"
    unfolding kr by (rule stale_count[OF d])
  have fl: "filter (\<lambda>p. fst p \<notin> set kr) ?s = filter (\<lambda>p. \<not> stale now lim (snd p)) ?s"
    unfolding kr by (rule stale_filter[OF d])
  show ?thesis
  proof (cases "kr = []")
    case True
    then have e: "filter (\<lambda>p. stale now lim (snd p)) ?s = []" using len by simp
    have "filter (\<lambda>p. \<not> stale now lim (snd p)) ?s = ?s" using fl True by simp
    then show ?thesis using True e m t
      by (simp add: cleanup_inactive_shares_def Let_def)
  next
    case False
    then have ne: "filter (\<lambda>p. stale now lim (snd p)) ?s \<noteq> []" using len by auto
    have dk: "distinct kr" unfolding kr using d by simp
    have sub: "set kr \<subseteq> fst ` set ?s" unfolding kr by auto
    have r: "remove_marked kr (?s, 0) = (filter (\<lambda>p. \<not> stale now lim (snd p)) ?s, int (length kr))"
      using remove_marked_distinct[OF dk sub, of 0] fl by simp
    have nz: "int (length kr) \<noteq> 0" using False by simp
    show ?thesis using False ne m t r nz len
      by (auto simp: cleanup_inactive_shares_def Let_def)
  qed
qed

lemma map_of_filter_distinct:
  "distinct (map fst s) \<Longrightarrow>
   map_of (filter P s) k = (case map_of s k of None \<Rightarrow> None | Some v \<Rightarrow> if P (k, v) then Some v else None)"
proof (induction s)
  case Nil then show ?case by simp
next
  case (Cons a s)
  obtain k' v' where a: "a = (k', v')" by (cases a)
  have n: "k' \<notin> fst ` set s" using Cons.prems a by simp
  then have "map_of s k' = None" by (simp add: map_of_eq_None_iff)
  then show ?case using Cons a by (auto split: option.splits)
qed


text \<open>
  Claim C9.  \<^verbatim>\<open>cleanup_inactive_shares\<close> never appends to the sheet: whatever the store, the
  clock and the surroundings, the rows of the sheet and the number of \<^verbatim>\<open>append_row\<close> calls
  are after the sweep what they were before it, and the worksheet is neither probed nor
  connected to.  The store only loses entries, and the state file is saved (once) exactly
  when it has lost one.  The sweep raises only where \<^verbatim>\<open>timedelta(hours=MAX_INACTIVE_HOURS)\<close>
  overflows, before anything is done.
\<close>

theorem sweep_never_appends:
  "(\<exists>w'. cleanup_inactive_shares E now_utc w = Inr w' \<and>
          sheet w' = sheet w \<and> n_append w' = n_append w \<and>
          n_probe w' = n_probe w \<and> n_setup w' = n_setup w \<and>
          length (active_shares w') \<le> length (active_shares w) \<and>
          n_save w' = (if length (active_shares w') < length (active_shares w)
                       then Suc (n_save w) else n_save w))
   \<or> (cleanup_inactive_shares E now_utc w = Inl OverflowError \<and>
       timedelta_hours (MAX_INACTIVE_HOURS E) = Inl OverflowError)"
proof (cases "timedelta_hours (MAX_INACTIVE_HOURS E)")
  case (Inl e)
  then have "e = OverflowError" by (simp add: timedelta_hours_def split: if_splits)
  then show ?thesis using Inl by (simp add: cleanup_inactive_shares_def Let_def)
next
  case (Inr lim)
  let ?s = "active_shares w"
  obtain kr lg where m: "mark_inactive now_utc lim ?s (map fst ?s) ([], []) = (kr, lg)"
    by (cases "mark_inactive now_utc lim ?s (map fst ?s) ([], [])")
  show ?thesis
  proof (cases "kr = []")
    case True
    then show ?thesis using Inr m by (simp add: cleanup_inactive_shares_def Let_def)
  next
    case False
    obtain s' c' where r: "remove_marked kr (?s, 0) = (s', c')"
      by (cases "remove_marked kr (?s, 0)")
    from remove_marked_count[OF r]
    have c: "0 \<le> c'" "length s' \<le> length ?s" "0 < c' \<longrightarrow> length s' < length ?s" "c' = 0 \<longrightarrow> s' = ?s"
      by simp_all
    show ?thesis
    proof (cases "c' = 0")
      case True
      then show ?thesis using False Inr m r c by (simp add: cleanup_inactive_shares_def Let_def)
    next
      case nz: False
      then have "length s' < length ?s" using c by simp
      then show ?thesis using False Inr m r nz by (simp add: cleanup_inactive_shares_def Let_def)
    qed
  qed
qed


text \<open>The session idle for 10 hours is removed, the state saved, the sheet left empty.\<close>

theorem sweep_never_appends_witness:
  "\<exists>w'. cleanup_inactive_shares env_ok t0 world1 = Inr w' \<and> sheet w' = [] \<and> n_append w' = 0 \<and>
         n_save w' = 1 \<and> map_of (active_shares w') (100, 1) = None"
proof -
  have t: "timedelta_hours (MAX_INACTIVE_HOURS env_ok) = Inr 32400000000" by code_simp
  have s: "sheet world1 = [] \<and> n_append world1 = 0 \<and> n_save world1 = 0 \<and>
           length (active_shares world1) = 2" by code_simp
  have c: "length (active_shares w') < 2 \<and> map_of (active_shares w') (100, 1) = None"
    if "cleanup_inactive_shares env_ok t0 world1 = Inr w'" for w'
  proof -
    have "map (map_sum id active_shares) [cleanup_inactive_shares env_ok t0 world1]
          = [Inr [((100, 2), session_b)]]" by code_simp
    then show ?thesis using that by simp
  qed
  from sweep_never_appends[of env_ok t0 world1] t s c show ?thesis by auto
qed

text \<open>
  Claim C3.  The store is a dictionary (distinct keys), the clock reading is aware, and
  every session carries a \<^verbatim>\<open>last_update\<close> timestamp.  Then the sweep returns, and the store
  after it is the store before it without the sessions with
  \<open>now - last_update > threshold\<close>: those and only those are removed, the others are left
  as they were and in their order.  The number removed is logged and, when it is not
  zero, the state is saved.
\<close>

theorem eviction_correct:
  assumes d: "distinct (map fst (active_shares w))"
      and a: "tzinfo now_utc \<noteq> None"
      and t: "timedelta_hours (MAX_INACTIVE_HOURS E) = Inr threshold"
      and l: "list_all (\<lambda>p. last_update_of (snd p) \<noteq> None) (active_shares w)"
  shows "\<exists>w'. cleanup_inactive_shares E now_utc w = Inr w' \<and>
           active_shares w' = filter (\<lambda>p. \<not> expired now_utc threshold (snd p)) (active_shares w) \<and>
           (\<forall>k v. map_of (active_shares w) k = Some v \<longrightarrow>
                  map_of (active_shares w') k = (if expired now_utc threshold v then None else Some v)) \<and>
           (if filter (\<lambda>p. expired now_utc threshold (snd p)) (active_shares w) = []
            then last (logs w') = (INFO, ''cleanup_inactive_shares: nothing to remove'', []) \<and>
                 n_save w' = n_save w
            else (INFO, ''cleanup_inactive_shares: removed'',
                   [LNum (int (length (filter (\<lambda>p. expired now_utc threshold (snd p)) (active_shares w))))])
                   \<in> set (logs w') \<and> n_save w' = Suc (n_save w))"
proof -
  have e: "\<And>p. p \<in> set (active_shares w) \<Longrightarrow>
             stale now_utc threshold (snd p) = expired now_utc threshold (snd p)"
    using l a by (simp add: list_all_iff stale_last_update)
  have f1: "filter (\<lambda>p. \<not> stale now_utc threshold (snd p)) (active_shares w)
          = filter (\<lambda>p. \<not> expired now_utc threshold (snd p)) (active_shares w)"
    by (rule filter_cong[OF refl]) (simp add: e)
  have f2: "filter (\<lambda>p. stale now_utc threshold (snd p)) (active_shares w)
          = filter (\<lambda>p. expired now_utc threshold (snd p)) (active_shares w)"
    by (rule filter_cong[OF refl]) (simp add: e)
  from cleanup_store[OF d t, of now_utc] obtain w' where
    w': "cleanup_inactive_shares E now_utc w = Inr w'"
        "active_shares w' = filter (\<lambda>p. \<not> expired now_utc threshold (snd p)) (active_shares w)"
        "if filter (\<lambda>p. expired now_utc threshold (snd p)) (active_shares w) = []
            then last (logs w') = (INFO, ''cleanup_inactive_shares: nothing to remove'', []) \<and>
                 n_save w' = n_save w
            else (INFO, ''cleanup_inactive_shares: removed'',
                   [LNum (int (length (filter (\<lambda>p. expired now_utc threshold (snd p)) (active_shares w))))])
                   \<in> set (logs w') \<and> n_save w' = Suc (n_save w)"
    unfolding f1 f2 by blast
  have "\<forall>k v. map_of (active_shares w) k = Some v \<longrightarrow>
          map_of (active_shares w') k = (if expired now_utc threshold v then None else Some v)"
    unfolding w'(2) by (simp add: map_of_filter_distinct[OF d])
  with w' show ?thesis by blast
qed

text \<open>The threshold is 9 hours; of two sessions, the one idle for 10 hours goes.\<close>

theorem eviction_correct_witness:
  "distinct (map fst (active_shares world1)) \<and> tzinfo t0 \<noteq> None \<and>
   timedelta_hours (MAX_INACTIVE_HOURS env_ok) = Inr 32400000000 \<and>
   list_all (\<lambda>p. last_update_of (snd p) \<noteq> None) (active_shares world1) \<and>
   expired t0 32400000000 session_a \<and> \<not> expired t0 32400000000 session_b \<and>
   (\<exists>w'. cleanup_inactive_shares env_ok t0 world1 = Inr w' \<and>
          active_shares w' = [((100, 2), session_b)] \<and>
          (INFO, ''cleanup_inactive_shares: removed'', [LNum 1]) \<in> set (logs w') \<and>
          n_save w' = 1)"
proof -
  have d: "distinct (map fst (active_shares world1))" by code_simp
  have a: "tzinfo t0 \<noteq> None" by code_simp
  have t: "timedelta_hours (MAX_INACTIVE_HOURS env_ok) = Inr 32400000000" by code_simp
  have l: "list_all (\<lambda>p. last_update_of (snd p) \<noteq> None) (active_shares world1)" by code_simp
  have x: "expired t0 32400000000 session_a \<and> \<not> expired t0 32400000000 session_b" by code_simp
  have f: "filter (\<lambda>p. \<not> expired t0 32400000000 (snd p)) (active_shares world1) = [((100, 2), session_b)]"
    by code_simp
  have g: "filter (\<lambda>p. expired t0 32400000000 (snd p)) (active_shares world1) = [((100, 1), session_a)]"
    by code_simp
  have n: "n_save world1 = 0" by code_simp
  from eviction_correct[OF d a t l] obtain w' where
    "cleanup_inactive_shares env_ok t0 world1 = Inr w'"
    "active_shares w' = [((100, 2), session_b)]"
    "(INFO, ''cleanup_inactive_shares: removed'', [LNum 1]) \<in> set (logs w')" "n_save w' = 1"
    unfolding f g n by auto
  then show ?thesis using d a t l x by blast
qed

text \<open>
  Claim C10.  An entry of the store without \<^verbatim>\<open>last_update\<close> and with a \<^verbatim>\<open>start_time\<close>
  timestamp is judged by its \<^verbatim>\<open>start_time\<close>: the sweep removes it when
  \<open>now - start_time > threshold\<close> and leaves it as it is otherwise.
\<close>

theorem missing_last_update_uses_start_time:
  assumes d: "distinct (map fst (active_shares w))"
      and a: "tzinfo now_utc \<noteq> None"
      and t: "timedelta_hours (MAX_INACTIVE_HOURS E) = Inr threshold"
      and k: "map_of (active_shares w) k = Some (PDict kvs)"
      and n: "map_of kvs ''last_update'' = None"
      and s: "map_of kvs ''start_time'' = Some (PDatetime st)"
  shows "\<exists>w'. cleanup_inactive_shares E now_utc w = Inr w' \<and>
           map_of (active_shares w') k =
             (if utc_micros now_utc - utc_micros (as_utc st) > threshold then None
              else Some (PDict kvs))"
proof -
  from cleanup_store[OF d t, of now_utc] obtain w' where
    w': "cleanup_inactive_shares E now_utc w = Inr w'"
        "active_shares w' = filter (\<lambda>p. \<not> stale now_utc threshold (snd p)) (active_shares w)"
    by blast
  have "map_of (active_shares w') k =
             (if utc_micros now_utc - utc_micros (as_utc st) > threshold then None
              else Some (PDict kvs))"
    unfolding w'(2) using k stale_start_time[OF a n s, of threshold]
    by (simp add: map_of_filter_distinct[OF d])
  with w' show ?thesis by blast
qed

text \<open>A session without \<^verbatim>\<open>last_update\<close> that started 10 hours ago is removed.\<close>

theorem missing_last_update_uses_start_time_witness:
  "distinct (map fst (active_shares world2)) \<and> tzinfo t0 \<noteq> None \<and>
   timedelta_hours (MAX_INACTIVE_HOURS env_ok) = Inr 32400000000 \<and>
   map_of (active_shares world2) (100, 3) = Some session_c \<and>
   utc_micros t0 - utc_micros (as_utc t_old) = 36000000000 \<and>
   (\<exists>w'. cleanup_inactive_shares env_ok t0 world2 = Inr w' \<and>
          map_of (active_shares w') (100, 3) = None)"
proof -
  have d: "distinct (map fst (active_shares world2))" by code_simp
  have a: "tzinfo t0 \<noteq> None" by code_simp
  have t: "timedelta_hours (MAX_INACTIVE_HOURS env_ok) = Inr 32400000000" by code_simp
  have k: "map_of (active_shares world2) (100, 3)
           = Some (PDict [(''user_id'', PInt 9), (''username'', PStr ''carol''),
                          (''start_time'', PDatetime t_old)])" by code_simp
  have k': "map_of (active_shares world2) (100, 3) = Some session_c" by code_simp
  have n: "map_of [(''user_id'', PInt 9), (''username'', PStr ''carol''),
                   (''start_time'', PDatetime t_old)] ''last_update'' = None" by code_simp
  have s: "map_of [(''user_id'', PInt 9), (''username'', PStr ''carol''),
                   (''start_time'', PDatetime t_old)] ''start_time'' = Some (PDatetime t_old)"
    by code_simp
  have g: "utc_micros t0 - utc_micros (as_utc t_old) = 36000000000" by code_simp
  from missing_last_update_uses_start_time[OF d a t k n s]
  have "\<exists>w'. cleanup_inactive_shares env_ok t0 world2 = Inr w' \<and>
          map_of (active_shares w') (100, 3) = None"
    unfolding g by simp
  then show ?thesis using d a t k' g by blast
qed

section \<open>Opening a share\<close>

lemma handle_location_distinct:
  "distinct (map fst (active_shares w)) \<Longrightarrow>
   distinct (map fst (active_shares (handle_location E u now w)))"
  by (auto simp: handle_location_def Let_def distinct_update
      split: option.splits)

lemma handle_locations_distinct:
  "distinct (map fst (active_shares w)) \<Longrightarrow>
   distinct (map fst (active_shares (handle_locations E evs w)))"
proof (induction evs arbitrary: w)
  case Nil then show ?case by simp
next
  case (Cons ev evs)
  obtain u now where ev: "ev = (u, now)" by (cases ev)
  show ?case unfolding ev using Cons.IH[OF handle_location_distinct[OF Cons.prems]] by simp
qed

text \<open>
  Claim C7.  \<^verbatim>\<open>handle_location\<close> returns for every update (it is a total function to the
  new state: nothing in it raises).  A store with one entry per key has one entry per key
  after any sequence of open events.  An open event for a key writes the session with
  \<open>start_time = last_update = now\<close> under that key and leaves the other keys as they are;
  when the key was there, its entry is overwritten in place, the keys of the store are
  the same, and a warning is logged.
\<close>

theorem open_unique:
  assumes d: "distinct (map fst (active_shares w))"
      and m: "message update = Some msg" and u: "from_user msg = Some user"
      and l: "location msg = Some loc" and p: "live_period loc = Some period" and pos: "0 < period"
  shows "distinct (map fst (active_shares (handle_locations E evs w))) \<and>
         distinct (map fst (active_shares (handle_location E update now_utc w))) \<and>
         map_of (active_shares (handle_location E update now_utc w)) (chat_id msg, message_id msg)
           = Some (new_session user now_utc) \<and>
         (\<forall>k. k \<noteq> (chat_id msg, message_id msg) \<longrightarrow>
              map_of (active_shares (handle_location E update now_utc w)) k = map_of (active_shares w) k) \<and>
         (if map_of (active_shares w) (chat_id msg, message_id msg) \<noteq> None
          then map fst (active_shares (handle_location E update now_utc w)) = map fst (active_shares w) \<and>
               (WARNING, ''handle_location: share already active, overwriting'',
                 [LKey (chat_id msg, message_id msg)]) \<in> set (logs (handle_location E update now_utc w))
          else map fst (active_shares (handle_location E update now_utc w))
                 = map fst (active_shares w) @ [(chat_id msg, message_id msg)])"
proof -
  let ?k = "(chat_id msg, message_id msg)"
  have s: "active_shares (handle_location E update now_utc w)
           = AList.update ?k (new_session user now_utc) (active_shares w)"
    using m u l p pos by (simp add: handle_location_def Let_def new_session_def)
  have lg: "map_of (active_shares w) ?k \<noteq> None \<Longrightarrow>
        (WARNING, ''handle_location: share already active, overwriting'', [LKey ?k])
          \<in> set (logs (handle_location E update now_utc w))"
    using m u l p pos by (simp add: handle_location_def Let_def)
  have k1: "map_of (active_shares w) ?k \<noteq> None \<Longrightarrow>
            map fst (AList.update ?k (new_session user now_utc) (active_shares w)) = map fst (active_shares w)"
    by (simp add: update_keys map_of_eq_None_iff)
  have k2: "map_of (active_shares w) ?k = None \<Longrightarrow>
            map fst (AList.update ?k (new_session user now_utc) (active_shares w))
              = map fst (active_shares w) @ [?k]"
    by (simp add: update_keys map_of_eq_None_iff)
  have c3: "map_of (active_shares (handle_location E update now_utc w)) ?k
            = Some (new_session user now_utc)"
    unfolding s by (simp add: update_conv')
  have c4: "\<forall>k. k \<noteq> ?k \<longrightarrow>
              map_of (active_shares (handle_location E update now_utc w)) k = map_of (active_shares w) k"
    unfolding s by (simp add: update_conv')
  have c5: "if map_of (active_shares w) ?k \<noteq> None
          then map fst (active_shares (handle_location E update now_utc w)) = map fst (active_shares w) \<and>
               (WARNING, ''handle_location: share already active, overwriting'', [LKey ?k])
                 \<in> set (logs (handle_location E update now_utc w))
          else map fst (active_shares (handle_location E update now_utc w))
                 = map fst (active_shares w) @ [?k]"
    using lg k1 k2 unfolding s by (cases "map_of (active_shares w) ?k") simp_all
  show ?thesis
    using handle_locations_distinct[OF d] handle_location_distinct[OF d] c3 c4 c5 by blast
qed

text \<open>An open event for the key of a session that is in the store.\<close>

theorem open_unique_witness:
  "distinct (map fst (active_shares world1)) \<and>
   map_of (active_shares world1) (100, 1) = Some session_a \<and>
   distinct (map fst (active_shares
      (handle_locations env_ok [(open_event 100 1, t0), (open_event 100 2, t0), (open_event 100 1, t0)] world1))) \<and>
   map_of (active_shares (handle_location env_ok (open_event 100 1) t0 world1)) (100, 1)
     = Some (PDict [(''user_id'', PInt 7), (''username'', PStr ''alice''),
                    (''start_time'', PDatetime t0), (''last_update'', PDatetime t0)]) \<and>
   map fst (active_shares (handle_location env_ok (open_event 100 1) t0 world1)) = [(100, 1), (100, 2)] \<and>
   (WARNING, ''handle_location: share already active, overwriting'', [LKey (100, 1)])
     \<in> set (logs (handle_location env_ok (open_event 100 1) t0 world1))"
proof -
  let ?evs = "[(open_event 100 1, t0), (open_event 100 2, t0), (open_event 100 1, t0)]"
  let ?w = "handle_location env_ok (open_event 100 1) t0 world1"
  have d: "distinct (map fst (active_shares world1))" by code_simp
  have k: "map_of (active_shares world1) (100, 1) = Some session_a" by code_simp
  have ks: "map fst (active_shares world1) = [(100, 1), (100, 2)]" by code_simp
  have e: "chat_id (open_msg 100 1) = 100" "message_id (open_msg 100 1) = 1"
    "new_session alice t0 = PDict [(''user_id'', PInt 7), (''username'', PStr ''alice''),
                    (''start_time'', PDatetime t0), (''last_update'', PDatetime t0)]"
    by (simp_all add: open_msg_def new_session_def alice_def)
  have t: "distinct (map fst (active_shares (handle_locations env_ok ?evs world1))) \<and>
         distinct (map fst (active_shares ?w)) \<and>
         map_of (active_shares ?w) (chat_id (open_msg 100 1), message_id (open_msg 100 1))
           = Some (new_session alice t0) \<and>
         (\<forall>k. k \<noteq> (chat_id (open_msg 100 1), message_id (open_msg 100 1)) \<longrightarrow>
              map_of (active_shares ?w) k = map_of (active_shares world1) k) \<and>
         (if map_of (active_shares world1) (chat_id (open_msg 100 1), message_id (open_msg 100 1)) \<noteq> None
          then map fst (active_shares ?w) = map fst (active_shares world1) \<and>
               (WARNING, ''handle_location: share already active, overwriting'',
                 [LKey (chat_id (open_msg 100 1), message_id (open_msg 100 1))]) \<in> set (logs ?w)
          else map fst (active_shares ?w)
                 = map fst (active_shares world1) @ [(chat_id (open_msg 100 1), message_id (open_msg 100 1))])"
    by (rule open_unique[OF d, where loc = "\<lparr>live_period = Some 3600\<rparr>" and period = 3600])
       (simp_all add: open_event_def open_msg_def)
  have t1: "distinct (map fst (active_shares (handle_locations env_ok ?evs world1)))"
    using t by (rule conjunct1)
  have t3: "map_of (active_shares ?w) (100, 1) = Some (PDict [(''user_id'', PInt 7), (''username'', PStr ''alice''),
                    (''start_time'', PDatetime t0), (''last_update'', PDatetime t0)])"
    using t unfolding e by blast
  have "if map_of (active_shares world1) (100, 1) \<noteq> None
          then map fst (active_shares ?w) = map fst (active_shares world1) \<and>
               (WARNING, ''handle_location: share already active, overwriting'',
                 [LKey (100, 1)]) \<in> set (logs ?w)
          else map fst (active_shares ?w) = map fst (active_shares world1) @ [(100, 1)]"
    using t unfolding e by blast
  then have t5: "map fst (active_shares ?w) = [(100, 1), (100, 2)] \<and>
               (WARNING, ''handle_location: share already active, overwriting'',
                 [LKey (100, 1)]) \<in> set (logs ?w)"
    unfolding k ks by simp
  show ?thesis using d k t1 t3 t5 by blast
qed

section \<open>Saving the state\<close>

lemma tmp_neq [simp]: "filename @ ''.tmp'' \<noteq> filename" "filename \<noteq> filename @ ''.tmp''"
  by simp_all

lemma write_state_visible:
  "list_all (\<lambda>s. s filename = fs filename \<or> s filename = snapshot data)
     (fst (write_state io data filename fs))"
  by (simp add: write_state_def remove_temp_def Let_def snapshot_def split: sum.splits)

lemma write_state_failure:
  "save_fails io data \<Longrightarrow>
   list_all (\<lambda>s. s filename = fs filename) (fst (write_state io data filename fs))"
  by (auto simp: write_state_def remove_temp_def Let_def save_fails_def split: sum.splits)

lemma write_state_success:
  "\<not> save_fails io data \<Longrightarrow>
   \<exists>data_to_save. prepare data [] = Inr data_to_save \<and>
      fst (write_state io data filename fs) =
        [fs, fs(filename @ ''.tmp'' \<mapsto> Garbage),
         fs(filename @ ''.tmp'' \<mapsto> Json (PDict data_to_save)),
         fs(filename \<mapsto> Json (PDict data_to_save), filename @ ''.tmp'' := None)]"
  by (auto simp: write_state_def remove_temp_def Let_def save_fails_def split: sum.splits)

lemma write_state_nonempty: "fst (write_state io data filename fs) \<noteq> []"
  by (auto simp: write_state_def remove_temp_def Let_def split: sum.splits)

lemma save_state_files:
  "files (save_state E data filename w) filename =
     (if save_fails (io_result E (n_save w)) data then files w filename else snapshot data)"
proof (cases "save_fails (io_result E (n_save w)) data")
  case True
  obtain states lg where r: "write_state (io_result E (n_save w)) data filename (files w) = (states, lg)"
    by (cases "write_state (io_result E (n_save w)) data filename (files w)")
  have ne: "states \<noteq> []" using write_state_nonempty[of "io_result E (n_save w)" data filename "files w"] r
    by simp
  have "list_all (\<lambda>s. s filename = files w filename) states"
    using write_state_failure[OF True, of filename "files w"] r by simp
  then have "last states filename = files w filename"
    using ne by (simp add: list_all_iff)
  then show ?thesis using True r by (simp add: save_state_def)
next
  case False
  from write_state_success[OF False, of filename "files w"]
  show ?thesis using False by (auto simp: save_state_def snapshot_def split: prod.splits)
qed

text \<open>
  Claim C6.  In every state that the file system goes through during \<^verbatim>\<open>save_state\<close>, the
  state file holds either what it held before the call or the complete snapshot of the
  store: nothing partial is ever seen there.  When a step fails (serialization or I/O),
  the state file is in every state what it was before the call.  When no step fails, the
  snapshot is written to the temporary file, which then replaces the state file in one
  step.
\<close>

theorem save_state_atomic:
  "list_all (\<lambda>s. s filename = fs filename \<or> s filename = snapshot data)
     (fst (write_state io data filename fs)) \<and>
   (save_fails io data \<longrightarrow>
      list_all (\<lambda>s. s filename = fs filename) (fst (write_state io data filename fs))) \<and>
   (\<not> save_fails io data \<longrightarrow>
      (\<exists>data_to_save. prepare data [] = Inr data_to_save \<and>
         fst (write_state io data filename fs) =
           [fs, fs(filename @ ''.tmp'' \<mapsto> Garbage),
            fs(filename @ ''.tmp'' \<mapsto> Json (PDict data_to_save)),
            fs(filename \<mapsto> Json (PDict data_to_save), filename @ ''.tmp'' := None)])) \<and>
   files (save_state E data filename w) filename =
     (if save_fails (io_result E (n_save w)) data then files w filename else snapshot data)"
  using write_state_visible write_state_failure write_state_success save_state_files by blast


text \<open>A save on a disk where writing fails, over an earlier state file; and one that succeeds.\<close>

theorem save_state_atomic_witness:
  "save_fails failing_write (active_shares world3) \<and>
   old_snapshot STATE_FILENAME = Some (Json (PDict [])) \<and>
   list_all (\<lambda>s. s STATE_FILENAME = Some (Json (PDict [])))
     (fst (write_state failing_write (active_shares world3) STATE_FILENAME old_snapshot)) \<and>
   files (save_state env_disk_full (active_shares world3) STATE_FILENAME world3) STATE_FILENAME
     = Some (Json (PDict [])) \<and>
   \<not> save_fails no_faults (active_shares world3) \<and>
   files (save_state env_ok (active_shares world3) STATE_FILENAME world3) STATE_FILENAME
     = snapshot (active_shares world3)"
proof -
  have p: "prepare (active_shares world3) [] =
      Inr [(''100:1'', PDict [(''user_id'', PInt 7), (''username'', PStr ''alice''),
                      (''start_time'', PStr ''2024-03-15T02:00:00+00:00''),
                      (''last_update'', PStr ''2024-03-15T02:00:00+00:00'')]),
           (''100:2'', PDict [(''user_id'', PInt 8), (''username'', PStr ''bob''),
                      (''start_time'', PStr ''2024-03-15T02:00:00+00:00''),
                      (''last_update'', PStr ''2024-03-15T11:00:00+00:00'')])]"
    by code_simp
  have f: "save_fails failing_write (active_shares world3)"
    by (simp add: save_fails_def p failing_write_def)
  have g: "save_fails (io_result env_disk_full (n_save world3)) (active_shares world3)"
    by (simp add: save_fails_def p failing_write_def env_disk_full_def)
  have n: "\<not> save_fails no_faults (active_shares world3)"
    by (simp add: save_fails_def p no_faults_def)
  have n': "\<not> save_fails (io_result env_ok (n_save world3)) (active_shares world3)"
    by (simp add: save_fails_def p no_faults_def env_ok_def)
  have o: "old_snapshot STATE_FILENAME = Some (Json (PDict []))" by (simp add: old_snapshot_def)
  have o': "files world3 STATE_FILENAME = Some (Json (PDict []))"
    by (simp add: world3_def old_snapshot_def)
  from save_state_atomic[where io = failing_write and data = "active_shares world3"
      and filename = STATE_FILENAME and fs = old_snapshot and E = env_disk_full and w = world3]
  have 1: "list_all (\<lambda>s. s STATE_FILENAME = Some (Json (PDict [])))
             (fst (write_state failing_write (active_shares world3) STATE_FILENAME old_snapshot))"
   and 2: "files (save_state env_disk_full (active_shares world3) STATE_FILENAME world3) STATE_FILENAME
             = Some (Json (PDict []))"
    using f g o o' by simp_all
  from save_state_atomic[where io = no_faults and data = "active_shares world3"
      and filename = STATE_FILENAME and fs = old_snapshot and E = env_ok and w = world3]
  have 3: "files (save_state env_ok (active_shares world3) STATE_FILENAME world3) STATE_FILENAME
             = snapshot (active_shares world3)"
    using n' by simp
  show ?thesis using f o 1 2 n 3 by blast
qed

end
